theory Spec2Isabelle
  imports Main "HOL-Library.Word"
begin

section \<open>JavaScript values\<close>

text \<open>
  The worker (\<^verbatim>\<open>src/lib/backupRunner.ts\<close>) receives its start command as JSON and reports
  errors by reading properties of whatever value was thrown. The values it inspects are
  modelled by a JSON-like datatype. Numbers are restricted to integers (the only thing the
  worker does with a number is test its truthiness and print it).
\<close>

datatype jsval =
    JUndefined
  | JNull
  | JBool bool
  | JNum int
  | JStr string
  | JArr "jsval list"
  | JObj "(string \<times> jsval) list"

type_synonym js_object = "(string \<times> jsval) list"

type_synonym bytes = "8 word list"

text \<open>Truthiness, as used by \<^verbatim>\<open>||\<close> and \<^verbatim>\<open>&&\<close>.\<close>

fun truthy :: "jsval \<Rightarrow> bool" where
  "truthy JUndefined = False"
| "truthy JNull = False"
| "truthy (JBool b) = b"
| "truthy (JNum n) = (n \<noteq> 0)"
| "truthy (JStr s) = (s \<noteq> [])"
| "truthy (JArr xs) = True"
| "truthy (JObj ps) = True"

text \<open>
  Exceptions are values: a computation that can throw returns \<open>js_object + 'a\<close>, with
  \<open>Inl\<close> carrying the thrown error object.
\<close>

definition TypeError :: "string \<Rightarrow> js_object" where
  "TypeError msg = [(''name'', JStr ''TypeError''), (''message'', JStr msg)]"

text \<open>
  Property read \<^verbatim>\<open>v.k\<close>. Reading a property of \<^verbatim>\<open>undefined\<close> or \<^verbatim>\<open>null\<close> throws a
  TypeError; a property that is absent reads as \<^verbatim>\<open>undefined\<close>. None of the property
  names the worker reads (\<^verbatim>\<open>code\<close>, \<^verbatim>\<open>response\<close>, \<^verbatim>\<open>data\<close>, \<^verbatim>\<open>message\<close>, \<^verbatim>\<open>stack\<close>,
  \<^verbatim>\<open>type\<close>, \<^verbatim>\<open>payload\<close>, \<^verbatim>\<open>config\<close>, \<^verbatim>\<open>backupInfo\<close>, \<^verbatim>\<open>responserror\<close>) exists on a
  primitive or on an array, so those read as \<^verbatim>\<open>undefined\<close>.
\<close>

definition property :: "js_object \<Rightarrow> string \<Rightarrow> jsval" where
  "property ps k = (case map_of ps k of None \<Rightarrow> JUndefined | Some v \<Rightarrow> v)"

fun member :: "jsval \<Rightarrow> string \<Rightarrow> js_object + jsval" where
  "member JUndefined k = Inl (TypeError (''Cannot read property '' @ k @ '' of undefined''))"
| "member JNull k = Inl (TypeError (''Cannot read property '' @ k @ '' of null''))"
| "member (JObj ps) k = Inr (property ps k)"
| "member (JBool b) k = Inr JUndefined"
| "member (JNum n) k = Inr JUndefined"
| "member (JStr s) k = Inr JUndefined"
| "member (JArr xs) k = Inr JUndefined"

text \<open>
  \<^verbatim>\<open>a || b\<close> and \<^verbatim>\<open>a && b\<close>: the right operand is evaluated (and can throw) only when
  the left one does not decide the result.
\<close>

definition or_else :: "js_object + jsval \<Rightarrow> js_object + jsval \<Rightarrow> js_object + jsval" where
  "or_else a b = (case a of Inl t \<Rightarrow> Inl t | Inr v \<Rightarrow> if truthy v then Inr v else b)"

definition and_then :: "js_object + jsval \<Rightarrow> js_object + jsval \<Rightarrow> js_object + jsval" where
  "and_then a b = (case a of Inl t \<Rightarrow> Inl t | Inr v \<Rightarrow> if truthy v then b else Inr v)"

definition chain :: "js_object + jsval \<Rightarrow> (jsval \<Rightarrow> js_object + 'a) \<Rightarrow> js_object + 'a" where
  "chain a f = (case a of Inl t \<Rightarrow> Inl t | Inr v \<Rightarrow> f v)"

text \<open>
  The built-ins of the runtime that the worker calls are parameters of the model:
  \<^verbatim>\<open>JSON.parse\<close> (which throws a SyntaxError on text that is not JSON),
  \<^verbatim>\<open>JSON.stringify\<close>, the conversion a template literal applies to an interpolated
  value, the MD5 function behind \<^verbatim>\<open>createHash('md5')\<close>, and the byte order of the host,
  which decides how a \<^verbatim>\<open>Uint32Array\<close> lays out its backing buffer.
\<close>

datatype endianness = LittleEndian | BigEndian

record js_runtime =
  JSON_parse :: "jsval \<Rightarrow> js_object + jsval"
  JSON_stringify :: "jsval \<Rightarrow> jsval"
  template :: "jsval \<Rightarrow> string"
  md5 :: "bytes \<Rightarrow> bytes"
  host_endianness :: endianness

section \<open>Observable behaviour of the worker process\<close>

datatype DB_TYPE = pg | mysql | mongodb

datatype SUBSCRIPTION_TYPE = free | premium

text \<open>The fields of \<^verbatim>\<open>Config\<close> that \<^verbatim>\<open>backupDatabase\<close> reads.\<close>

record Config =
  subscriptionType :: SUBSCRIPTION_TYPE
  agentId :: string
  dumpProgramsDirectory :: string
  publicKey :: string
  dbType :: DB_TYPE
  dbName :: string

text \<open>
  The module-level \<^verbatim>\<open>backup\<close> object: whatever the controller seeded
  (\<^verbatim>\<open>backupInfo.backup\<close>), plus the two properties the worker assigns in the free tier.
\<close>

record Backup =
  filename :: "string option"
  s3uploadId :: "string option"
  seeded :: js_object

record BackupInfo =
  backup :: "Backup option"

datatype log_level = Debug | Info | Error

datatype event =
    Log log_level string "jsval option"
  | ConsoleError jsval
  | CheckDbDumpProgram DB_TYPE string
  | CreateBackupKey string
  | StartDumper bytes
  | StreamWrite bytes
  | HashUpdate bytes
  | HashEnd
  | InitMultipartUpload string
  | GetUploadPartUrl Backup nat string string
  | GetUploadPartUrlFromLocalCredentials "string option" "string option" nat string
  | PutPart nat string
  | FinishUpload Backup "(nat \<times> string) list" string string string
  | CompleteMultipartUpload "string option" "string option" "(nat \<times> string) list"
  | ProcessSend jsval
  | ProcessExit int
  | Throws js_object

text \<open>
  A run is described by the list of events it performs, in order. \<open>StreamWrite\<close> is a
  chunk entering \<^verbatim>\<open>backupFileStream\<close> (by an explicit \<^verbatim>\<open>write\<close> or through the pipe from
  the dumper), \<open>HashUpdate\<close> a chunk that \<^verbatim>\<open>backupFileStream\<close> hands to the hash,
  \<open>Throws\<close> an exception that leaves a handler uncaught. The remaining events are calls
  to the collaborators, the logger and the process object, with their arguments.
\<close>

section \<open>The message handler\<close>

text \<open>
  \<^verbatim>\<open>
  process.on('message', (message) => {
    try {
      const { type, payload } = JSON.parse(message);
      if (type === 'startBackup') {
        backupDatabase(payload.config, payload.backupInfo);
      }
    } catch (e) {}
  });
  \<close>
  The handler either does nothing or calls \<^verbatim>\<open>backupDatabase\<close> with two values read from
  the message; the dispatch records which.
\<close>

datatype dispatch = NoAction | StartBackup jsval jsval

definition on_message :: "js_runtime \<Rightarrow> jsval \<Rightarrow> dispatch" where
  "on_message rt message =
     (case JSON_parse rt message of
        Inl e \<Rightarrow> NoAction
      | Inr parsed \<Rightarrow>
          (case member parsed ''type'' of
             Inl e \<Rightarrow> NoAction
           | Inr type \<Rightarrow>
               (case member parsed ''payload'' of
                  Inl e \<Rightarrow> NoAction
                | Inr payload \<Rightarrow>
                    if type = JStr ''startBackup'' then
                      (case member payload ''config'' of
                         Inl e \<Rightarrow> NoAction
                       | Inr config \<Rightarrow>
                           (case member payload ''backupInfo'' of
                              Inl e \<Rightarrow> NoAction
                            | Inr backupInfo \<Rightarrow> StartBackup config backupInfo))
                    else NoAction)))"

text \<open>
  The events of handling one message, given the behaviour \<open>run\<close> of
  \<^verbatim>\<open>backupDatabase\<close> on the two values passed to it.
\<close>

definition message_events :: "js_runtime \<Rightarrow> (jsval \<Rightarrow> jsval \<Rightarrow> event list) \<Rightarrow> jsval \<Rightarrow> event list" where
  "message_events rt run message =
     (case on_message rt message of
        NoAction \<Rightarrow> []
      | StartBackup config backupInfo \<Rightarrow> run config backupInfo)"

section \<open>The uncaughtException handler\<close>

text \<open>
  \<^verbatim>\<open>
  process.on('uncaughtException', (e) => {
    console.error(e);
    const error = <any>e;
    process.send(JSON.stringify({
      type: 'error',
      payload: `${error.code || (error.response && error.responserror.data) || error.message}\n${error.stack}`,
    }));
    process.exit(1);
  });
  \<close>
\<close>

definition error_message :: "js_runtime \<Rightarrow> string \<Rightarrow> jsval" where
  "error_message rt p =
     JSON_stringify rt (JObj [(''type'', JStr ''error''), (''payload'', JStr p)])"

definition uncaught_detail :: "jsval \<Rightarrow> js_object + jsval" where
  "uncaught_detail error =
     or_else
       (or_else (member error ''code'')
          (and_then (member error ''response'')
             (chain (member error ''responserror'') (\<lambda>r. member r ''data''))))
       (member error ''message'')"

definition uncaught_payload :: "js_runtime \<Rightarrow> jsval \<Rightarrow> js_object + string" where
  "uncaught_payload rt error =
     chain (uncaught_detail error) (\<lambda>d.
       chain (member error ''stack'') (\<lambda>st.
         Inr (template rt d @ [CHR 0x0A] @ template rt st)))"

definition on_uncaughtException :: "js_runtime \<Rightarrow> jsval \<Rightarrow> event list" where
  "on_uncaughtException rt e =
     ConsoleError e #
       (case uncaught_payload rt e of
          Inl t \<Rightarrow> [Throws t]
        | Inr p \<Rightarrow> [ProcessSend (error_message rt p), ProcessExit 1])"

section \<open>Bytes, the envelope header and the object name\<close>

text \<open>\<^verbatim>\<open>Buffer.from('DBACKED')\<close>: the UTF-8 bytes of an ASCII literal.\<close>

definition Buffer_from_string :: "string \<Rightarrow> bytes" where
  "Buffer_from_string s = map of_char s"

text \<open>\<^verbatim>\<open>Buffer.from([...VERSION])\<close>: every array entry is truncated to one byte.\<close>

definition Buffer_from_array :: "int list \<Rightarrow> bytes" where
  "Buffer_from_array xs = map word_of_int xs"

text \<open>
  \<^verbatim>\<open>Buffer.from(new Uint32Array([n]).buffer)\<close>: the typed array stores \<open>n\<close> modulo
  \<open>2 ^ 32\<close>, and the buffer shows its four bytes in the byte order of the host.
\<close>

definition uint32_le :: "32 word \<Rightarrow> bytes" where
  "uint32_le w = [ucast w, ucast (drop_bit 8 w), ucast (drop_bit 16 w), ucast (drop_bit 24 w)]"

definition Uint32Array_buffer :: "endianness \<Rightarrow> nat \<Rightarrow> bytes" where
  "Uint32Array_buffer en n =
     (case en of
        LittleEndian \<Rightarrow> uint32_le (word_of_nat n)
      | BigEndian \<Rightarrow> rev (uint32_le (word_of_nat n)))"

text \<open>
  The five writes of lines 32 to 37, in source order. \<open>VERSION\<close> is the constant of
  \<^verbatim>\<open>./constants\<close>, a parameter here.
\<close>

definition header_writes :: "js_runtime \<Rightarrow> int list \<Rightarrow> bytes \<Rightarrow> bytes \<Rightarrow> bytes list" where
  "header_writes rt VERSION encryptedKey iv =
     [Buffer_from_string ''DBACKED'',
      Buffer_from_array VERSION,
      Uint32Array_buffer (host_endianness rt) (length encryptedKey),
      encryptedKey,
      iv]"

text \<open>\<^verbatim>\<open>toString('hex')\<close> of a buffer.\<close>

definition hex_digit :: "nat \<Rightarrow> char" where
  "hex_digit n = ''0123456789abcdef'' ! (n mod 16)"

definition hex_byte :: "8 word \<Rightarrow> string" where
  "hex_byte b = [hex_digit (unat b div 16), hex_digit (unat b mod 16)]"

definition hex :: "bytes \<Rightarrow> string" where
  "hex bs = concat (map hex_byte bs)"

text \<open>
  \<^verbatim>\<open>DateTime.utc().toFormat('ddLLyyyyHHmm')\<close>: day, month, hour and minute padded to two
  digits, the year to four, with nothing between them. The clock is part of the
  environment.
\<close>

record utc_time =
  year :: nat
  month :: nat
  day :: nat
  hour :: nat
  minute :: nat

fun decimal :: "nat \<Rightarrow> string" where
  "decimal n =
     (if n < 10 then [''0123456789'' ! n]
      else decimal (n div 10) @ [''0123456789'' ! (n mod 10)])"

definition padStart :: "nat \<Rightarrow> string \<Rightarrow> string" where
  "padStart w s = replicate (w - length s) (CHR ''0'') @ s"

definition toFormat_ddLLyyyyHHmm :: "utc_time \<Rightarrow> string" where
  "toFormat_ddLLyyyyHHmm t =
     padStart 2 (decimal (day t)) @ padStart 2 (decimal (month t)) @
     padStart 4 (decimal (year t)) @
     padStart 2 (decimal (hour t)) @ padStart 2 (decimal (minute t))"

definition backup_filename :: "string \<Rightarrow> utc_time \<Rightarrow> string" where
  "backup_filename db t = ''backup_'' @ db @ ''_'' @ toFormat_ddLLyyyyHHmm t"

section \<open>The collaborators\<close>

text \<open>
  Everything \<^verbatim>\<open>backupDatabase\<close> awaits lives in modules outside the worker
  (\<^verbatim>\<open>dbDumpProgram\<close>, \<^verbatim>\<open>dbDumper\<close>, \<^verbatim>\<open>s3\<close>, \<^verbatim>\<open>dbackedApi\<close>). Each call either resolves to
  a value or rejects with an error object; the environment fixes which, as a function of
  the arguments. \<open>createBackupKey\<close> resolves to the key and the wrapped key,
  \<open>startDumper\<close> to the chunks the dump stream will deliver and the IV, all of them
  buffers. The environment also schedules the pipes: \<open>early_deliveries\<close> is the number of
  deliveries they make while the function waits for \<^verbatim>\<open>initMultipartUpload\<close>.
\<close>

record env =
  VERSION :: "int list"
  utc_now :: utc_time
  checkDbDumpProgram :: "DB_TYPE \<Rightarrow> string \<Rightarrow> js_object + unit"
  createBackupKey :: "string \<Rightarrow> js_object + (bytes \<times> bytes)"
  startDumper :: "bytes \<Rightarrow> Config \<Rightarrow> js_object + (bytes list \<times> bytes)"
  initMultipartUpload :: "string \<Rightarrow> Config \<Rightarrow> js_object + string"
  getUploadPartUrl :: "Backup \<Rightarrow> nat \<Rightarrow> string \<Rightarrow> string \<Rightarrow> js_object + string"
  getUploadPartUrlFromLocalCredentials ::
    "string option \<Rightarrow> string option \<Rightarrow> nat \<Rightarrow> string \<Rightarrow> Config \<Rightarrow> js_object + string"
  split_parts :: "bytes \<Rightarrow> bytes list"
  part_hash :: "bytes \<Rightarrow> string"
  put_part :: "nat \<Rightarrow> string \<Rightarrow> bytes \<Rightarrow> js_object + string"
  finishUpload ::
    "Backup \<Rightarrow> (nat \<times> string) list \<Rightarrow> string \<Rightarrow> string \<Rightarrow> string \<Rightarrow> js_object + unit"
  completeMultipartUpload ::
    "string option \<Rightarrow> string option \<Rightarrow> (nat \<times> string) list \<Rightarrow> Config \<Rightarrow> js_object + unit"
  early_deliveries :: nat

section \<open>Sequencing\<close>

text \<open>
  The body of the \<^verbatim>\<open>try\<close> block is a sequence of steps, each of which performs events
  and then either yields a value or throws; a throw skips the rest of the block. Nothing
  stops the process when the block is left by a throw, so a throw is recorded together
  with the deliveries the pipes have still to make at that moment.
\<close>

type_synonym 'a job = "event list \<times> (js_object \<times> event list + 'a)"

definition returns :: "'a \<Rightarrow> 'a job" where
  "returns x = ([], Inr x)"

definition emit :: "event list \<Rightarrow> unit job" where
  "emit evs = (evs, Inr ())"

definition await :: "event \<Rightarrow> js_object + 'a \<Rightarrow> 'a job" where
  "await ev r = ([ev], case r of Inl e \<Rightarrow> Inl (e, []) | Inr x \<Rightarrow> Inr x)"

definition seq :: "'a job \<Rightarrow> ('a \<Rightarrow> 'b job) \<Rightarrow> 'b job" where
  "seq m f =
     (case m of
        (es, Inl t) \<Rightarrow> (es, Inl t)
      | (es, Inr x) \<Rightarrow> (case f x of (es', r) \<Rightarrow> (es @ es', r)))"

section \<open>The hash and the uploader\<close>

text \<open>
  \<^verbatim>\<open>createHash('md5')\<close> is a writable stream: it accumulates what is written to it, and
  after \<^verbatim>\<open>end()\<close> its \<^verbatim>\<open>read()\<close> yields the MD5 digest of everything it consumed.
\<close>

definition createHash :: "bytes" where
  "createHash = []"

definition hash_write :: "bytes \<Rightarrow> bytes \<Rightarrow> bytes" where
  "hash_write consumed chunk = consumed @ chunk"

definition hash_read :: "js_runtime \<Rightarrow> bytes \<Rightarrow> bytes" where
  "hash_read rt consumed = md5 rt consumed"

text \<open>
  \<^verbatim>\<open>backupFileStream\<close> is piped to \<^verbatim>\<open>uploadingStream\<close> and to \<^verbatim>\<open>hash\<close>: every chunk it
  holds (the five header writes, then each chunk the dump stream pipes into it) goes to
  both. \<open>pipe_events\<close> lists the deliveries in their order.
\<close>

definition pipe_events :: "bytes list \<Rightarrow> bytes list \<Rightarrow> event list" where
  "pipe_events header backupStream =
     map HashUpdate header @ concat (map (\<lambda>c. [StreamWrite c, HashUpdate c]) backupStream)"

text \<open>
  The pipes are set up at lines 38 to 44 and deliver whenever the function does not run:
  while it waits at an \<^verbatim>\<open>await\<close>, and after it has returned. \<open>piped n deliveries m\<close> is
  the await \<open>m\<close> with the pipes at work. If \<open>m\<close> rejects, \<open>n\<close> deliveries have
  been made by then and the others are still to come; if it resolves, the function goes on
  to \<^verbatim>\<open>uploadToS3\<close>, which reads the stream to its end, and the model lets the pipes
  deliver everything before the uploader's first request.
\<close>

definition piped :: "nat \<Rightarrow> event list \<Rightarrow> 'a job \<Rightarrow> 'a job" where
  "piped n deliveries m =
     (case m of
        (evs, Inl (e, late)) \<Rightarrow> (evs @ take n deliveries, Inl (e, late @ drop n deliveries))
      | (evs, Inr x) \<Rightarrow> (evs @ deliveries, Inr x))"

text \<open>
  Modelled from the spec: \<^verbatim>\<open>uploadToS3\<close> of \<^verbatim>\<open>./s3\<close> is not among the sources. By the
  specification the upload backend cuts the stream into parts, numbers them from 1 without
  gaps, asks the caller's \<^verbatim>\<open>generateBackupUrl\<close> for a URL per part with the part number
  and the part hash, transmits the part to that URL and receives an ETag, and returns one
  (part number, ETag) pair per part, in order, once the stream is exhausted; the first
  failure aborts the upload. How the stream is cut (\<open>split_parts\<close>) and how a part is
  hashed (\<open>part_hash\<close>) are left to the environment.
\<close>

fun upload_parts ::
  "env \<Rightarrow> (nat \<Rightarrow> string \<Rightarrow> string job) \<Rightarrow> nat \<Rightarrow> bytes list \<Rightarrow> (nat \<times> string) list job" where
  "upload_parts en generateBackupUrl n [] = returns []"
| "upload_parts en generateBackupUrl n (p # ps) =
     seq (generateBackupUrl n (part_hash en p)) (\<lambda>url.
     seq (await (PutPart n url) (put_part en n url p)) (\<lambda>etag.
     seq (upload_parts en generateBackupUrl (Suc n) ps) (\<lambda>rest.
     returns ((n, etag) # rest))))"

definition uploadToS3 ::
  "env \<Rightarrow> bytes \<Rightarrow> (nat \<Rightarrow> string \<Rightarrow> string job) \<Rightarrow> (nat \<times> string) list job" where
  "uploadToS3 en fileStream generateBackupUrl =
     upload_parts en generateBackupUrl 1 (split_parts en fileStream)"

section \<open>backupDatabase\<close>

text \<open>The callback of lines 54 to 68, reading the module-level \<^verbatim>\<open>backup\<close>.\<close>

definition generateBackupUrl :: "env \<Rightarrow> Config \<Rightarrow> Backup \<Rightarrow> nat \<Rightarrow> string \<Rightarrow> string job" where
  "generateBackupUrl en config bk partNumber partHash =
     seq (emit [Log Debug ''Getting multipart upload URL for part number''
                  (Some (JObj [(''partNumber'', JNum (int partNumber))]))]) (\<lambda>_.
     if subscriptionType config = premium then
       await (GetUploadPartUrl bk partNumber (agentId config) partHash)
         (getUploadPartUrl en bk partNumber (agentId config) partHash)
     else
       await (GetUploadPartUrlFromLocalCredentials (filename bk) (s3uploadId bk) partNumber partHash)
         (getUploadPartUrlFromLocalCredentials en (filename bk) (s3uploadId bk)
            partNumber partHash config))"

text \<open>Lines 47 to 50: only the free tier names the object and opens a session.\<close>

definition open_session :: "env \<Rightarrow> Config \<Rightarrow> Backup \<Rightarrow> Backup job" where
  "open_session en config bk =
     (if subscriptionType config = free then
        (let name = backup_filename (dbName config) (utc_now en) in
         seq (await (InitMultipartUpload name) (initMultipartUpload en name config)) (\<lambda>uploadId.
         returns (bk\<lparr>filename := Some name, s3uploadId := Some uploadId\<rparr>)))
      else returns bk)"

text \<open>Lines 72 to 89: the finalization call of the tier.\<close>

definition finalize ::
  "js_runtime \<Rightarrow> env \<Rightarrow> Config \<Rightarrow> Backup \<Rightarrow> (nat \<times> string) list \<Rightarrow> bytes \<Rightarrow> unit job" where
  "finalize rt en config bk partsEtag consumed =
     (if subscriptionType config = premium then
        await (FinishUpload bk partsEtag (hex (hash_read rt consumed)) (agentId config)
                 (publicKey config))
          (finishUpload en bk partsEtag (hex (hash_read rt consumed)) (agentId config)
             (publicKey config))
      else if subscriptionType config = free then
        await (CompleteMultipartUpload (filename bk) (s3uploadId bk) partsEtag)
          (completeMultipartUpload en (filename bk) (s3uploadId bk) partsEtag config)
      else returns ())"

text \<open>
  Lines 38 to 91: the pipes, the session, the upload and the finalization. The pipes are
  in place before the session is opened.
\<close>

definition transfer ::
  "js_runtime \<Rightarrow> env \<Rightarrow> Config \<Rightarrow> Backup \<Rightarrow> bytes list \<Rightarrow> bytes list \<Rightarrow> unit job" where
  "transfer rt en config bk0 header backupStream =
     seq (piped (early_deliveries en) (pipe_events header backupStream)
            (open_session en config bk0)) (\<lambda>bk.
     let consumed = foldl hash_write createHash (header @ backupStream) in
     seq (uploadToS3 en (concat (header @ backupStream))
            (generateBackupUrl en config bk)) (\<lambda>partsEtag.
     seq (emit [Log Info ''Informing server the upload is finished'' None]) (\<lambda>_.
     seq (emit [HashEnd]) (\<lambda>_.
     seq (finalize rt en config bk partsEtag consumed) (\<lambda>_.
     seq (emit [Log Info ''backup finished !'' None]) (\<lambda>_.
     emit [ProcessExit 0]))))))"

text \<open>The body of the \<^verbatim>\<open>try\<close> block, lines 18 to 91.\<close>

definition initial_backup :: "BackupInfo \<Rightarrow> Backup" where
  "initial_backup backupInfo =
     (case backup backupInfo of
        Some b \<Rightarrow> b
      | None \<Rightarrow> \<lparr>filename = None, s3uploadId = None, seeded = []\<rparr>)"

definition try_block :: "js_runtime \<Rightarrow> env \<Rightarrow> Config \<Rightarrow> BackupInfo \<Rightarrow> unit job" where
  "try_block rt en config backupInfo =
     (let bk0 = initial_backup backupInfo in
      seq (await (CheckDbDumpProgram (dbType config) (dumpProgramsDirectory config))
             (checkDbDumpProgram en (dbType config) (dumpProgramsDirectory config))) (\<lambda>_.
      seq (await (CreateBackupKey (publicKey config))
             (createBackupKey en (publicKey config))) (\<lambda>(backupKey, encryptedKey).
      seq (await (StartDumper backupKey) (startDumper en backupKey config)) (\<lambda>(backupStream, iv).
      seq (emit [Log Debug ''Creating backup file stream PassThrough'' None]) (\<lambda>_.
      let header = header_writes rt (VERSION en) encryptedKey iv in
      seq (emit (map StreamWrite header)) (\<lambda>_.
      transfer rt en config bk0 header backupStream))))))"

text \<open>
  The \<^verbatim>\<open>catch\<close> block, lines 92 to 98:
  \<^verbatim>\<open>
  logger.error('Unknown error while creating backup',
    { error: e.code || (e.response && e.response.data) || e.message });
  process.send(JSON.stringify({
    type: 'error',
    payload: `${JSON.stringify(e.code || (e.response && e.response.data) || e.message)}\n${e.stack}`,
  }));
  \<close>
\<close>

definition caught_detail :: "jsval \<Rightarrow> js_object + jsval" where
  "caught_detail e =
     or_else
       (or_else (member e ''code'')
          (and_then (member e ''response'')
             (chain (member e ''response'') (\<lambda>r. member r ''data''))))
       (member e ''message'')"

definition caught_payload :: "js_runtime \<Rightarrow> jsval \<Rightarrow> js_object + string" where
  "caught_payload rt e =
     chain (caught_detail e) (\<lambda>d.
       chain (member e ''stack'') (\<lambda>st.
         Inr (template rt (JSON_stringify rt d) @ [CHR 0x0A] @ template rt st)))"

definition catch_block :: "js_runtime \<Rightarrow> jsval \<Rightarrow> event list" where
  "catch_block rt e =
     (case caught_detail e of
        Inl t \<Rightarrow> [Throws t]
      | Inr d \<Rightarrow>
          Log Error ''Unknown error while creating backup'' (Some (JObj [(''error'', d)])) #
            (case caught_payload rt e of
               Inl t \<Rightarrow> [Throws t]
             | Inr p \<Rightarrow> [ProcessSend (error_message rt p)]))"

text \<open>
  The whole function. \<^verbatim>\<open>process.exit(0)\<close> ends the process on the success path; the
  \<^verbatim>\<open>catch\<close> block ends with \<^verbatim>\<open>process.send\<close>, after which the function returns, the
  process lives on and the pipes make the deliveries they still had to make.
\<close>

definition backupDatabase :: "js_runtime \<Rightarrow> env \<Rightarrow> Config \<Rightarrow> BackupInfo \<Rightarrow> event list" where
  "backupDatabase rt en config backupInfo =
     (case try_block rt en config backupInfo of
        (evs, Inr _) \<Rightarrow> evs
      | (evs, Inl (e, late)) \<Rightarrow> evs @ catch_block rt (JObj e) @ late)"

section \<open>The worker process\<close>

text \<open>
  One run of the worker: the job started by the start command, possibly cut short by an
  exception that escapes every \<^verbatim>\<open>try\<close> (thrown from a callback outside the promise chain
  of \<^verbatim>\<open>backupDatabase\<close>). \<open>Some (k, e)\<close> says that \<open>e\<close> escapes after the job has
  performed \<open>k\<close> events and before it has performed its last; the uncaughtException
  handler then runs and the process ends with it.
\<close>

definition worker_run ::
  "js_runtime \<Rightarrow> env \<Rightarrow> Config \<Rightarrow> BackupInfo \<Rightarrow> (nat \<times> jsval) option \<Rightarrow> event list" where
  "worker_run rt en config backupInfo fault =
     (let job = backupDatabase rt en config backupInfo in
      case fault of
        None \<Rightarrow> job
      | Some (k, e) \<Rightarrow>
          if k < length job then take k job @ on_uncaughtException rt e else job)"

section \<open>Reading a run\<close>

text \<open>The messages delivered to the controller, and the success signal.\<close>

definition sent :: "event list \<Rightarrow> jsval list" where
  "sent evs = concat (map (\<lambda>ev. case ev of ProcessSend m \<Rightarrow> [m] | _ \<Rightarrow> []) evs)"

text \<open>The exit codes with which the process was ended.\<close>

definition exits :: "event list \<Rightarrow> int list" where
  "exits evs = concat (map (\<lambda>ev. case ev of ProcessExit c \<Rightarrow> [c] | _ \<Rightarrow> []) evs)"

definition clean_exit :: "event list \<Rightarrow> bool" where
  "clean_exit evs = (ProcessExit 0 \<in> set evs)"

definition is_terminal :: "event \<Rightarrow> bool" where
  "is_terminal ev = (case ev of ProcessSend m \<Rightarrow> True | ProcessExit c \<Rightarrow> True | _ \<Rightarrow> False)"

text \<open>The chunks written to \<^verbatim>\<open>backupFileStream\<close> and those consumed by the hash, in order.\<close>

definition stream_written :: "event list \<Rightarrow> bytes list" where
  "stream_written evs = concat (map (\<lambda>ev. case ev of StreamWrite b \<Rightarrow> [b] | _ \<Rightarrow> []) evs)"

definition hashed :: "event list \<Rightarrow> bytes list" where
  "hashed evs = concat (map (\<lambda>ev. case ev of HashUpdate b \<Rightarrow> [b] | _ \<Rightarrow> []) evs)"

definition is_finalization :: "event \<Rightarrow> bool" where
  "is_finalization ev =
     (case ev of
        FinishUpload bk parts h a k \<Rightarrow> True
      | CompleteMultipartUpload f u parts \<Rightarrow> True
      | _ \<Rightarrow> False)"

text \<open>The events an upload consists of: the callback's log line, a URL request, a transmission.\<close>

definition upload_event :: "event \<Rightarrow> bool" where
  "upload_event ev =
     (case ev of
        Log l m d \<Rightarrow> l = Debug
      | GetUploadPartUrl bk n a h \<Rightarrow> True
      | GetUploadPartUrlFromLocalCredentials f u n h \<Rightarrow> True
      | PutPart n url \<Rightarrow> True
      | _ \<Rightarrow> False)"

text \<open>The events by which the worker names an object or opens a session of its own.\<close>

definition is_direct :: "event \<Rightarrow> bool" where
  "is_direct ev =
     (case ev of
        InitMultipartUpload name \<Rightarrow> True
      | GetUploadPartUrlFromLocalCredentials f u n h \<Rightarrow> True
      | CompleteMultipartUpload f u parts \<Rightarrow> True
      | _ \<Rightarrow> False)"

definition is_delegated :: "event \<Rightarrow> bool" where
  "is_delegated ev =
     (case ev of
        GetUploadPartUrl bk n a h \<Rightarrow> True
      | FinishUpload bk parts h a k \<Rightarrow> True
      | _ \<Rightarrow> False)"

text \<open>
  The detail of an error as the specification words it: the error code, or the body of the
  remote response if there is one, or the message.
\<close>

definition claimed_detail :: "js_object \<Rightarrow> jsval" where
  "claimed_detail e =
     (let body = (case member (property e ''response'') ''data'' of Inr d \<Rightarrow> d | Inl t \<Rightarrow> JUndefined) in
      if truthy (property e ''code'') then property e ''code''
      else if truthy (property e ''response'') \<and> truthy body then body
      else property e ''message'')"

text \<open>A start command: JSON text for an object whose \<^verbatim>\<open>type\<close> is \<^verbatim>\<open>"startBackup"\<close>.\<close>

definition is_start_command :: "js_runtime \<Rightarrow> jsval \<Rightarrow> bool" where
  "is_start_command rt message =
     (case JSON_parse rt message of
        Inr (JObj ps) \<Rightarrow> map_of ps ''type'' = Some (JStr ''startBackup'')
      | _ \<Rightarrow> False)"

section \<open>Reading an envelope back\<close>

text \<open>
  The specification lays the envelope out as 7 bytes of magic, a version of fixed width, a
  4-byte unsigned length, that many bytes of wrapped key, an IV of fixed width, and the
  payload. \<open>parse_header\<close> follows those words; it is not part of the worker. It reads
  the length in the byte order it is told.
\<close>

definition read_uint32 :: "endianness \<Rightarrow> bytes \<Rightarrow> nat" where
  "read_uint32 en bs =
     (case (case en of LittleEndian \<Rightarrow> bs | BigEndian \<Rightarrow> rev bs) of
        [b0, b1, b2, b3] \<Rightarrow> unat b0 + 256 * unat b1 + 65536 * unat b2 + 16777216 * unat b3
      | _ \<Rightarrow> 0)"

definition parse_header ::
  "endianness \<Rightarrow> nat \<Rightarrow> nat \<Rightarrow> bytes \<Rightarrow> (bytes \<times> bytes \<times> nat \<times> bytes \<times> bytes \<times> bytes) option" where
  "parse_header en version_width iv_width bs =
     (let magic = take 7 bs; r1 = drop 7 bs;
          version = take version_width r1; r2 = drop version_width r1;
          n = read_uint32 en (take 4 r2); r3 = drop 4 r2;
          key = take n r3; r4 = drop n r3;
          iv = take iv_width r4; payload = drop iv_width r4
      in if 7 + version_width + 4 + n + iv_width \<le> length bs
         then Some (magic, version, n, key, iv, payload) else None)"

section \<open>A small environment\<close>

text \<open>
  Concrete stand-ins for the runtime and the collaborators, used to run the model on
  examples. They are not the real functions: the digest is no MD5, \<open>toy_parse\<close>
  knows two texts, and \<open>JSON_stringify\<close> leaves a value as it is, so that a message
  can be read in the trace.
\<close>

fun toy_show :: "jsval \<Rightarrow> string" where
  "toy_show JUndefined = ''undefined''"
| "toy_show JNull = ''null''"
| "toy_show (JBool b) = (if b then ''true'' else ''false'')"
| "toy_show (JNum n) = ''number''"
| "toy_show (JStr s) = s"
| "toy_show (JArr xs) = ''array''"
| "toy_show (JObj ps) = ''[object Object]''"

definition toy_parse :: "jsval \<Rightarrow> js_object + jsval" where
  "toy_parse m =
     (if m = JStr ''null'' then Inr JNull
      else if m = JStr ''start'' then
        Inr (JObj [(''type'', JStr ''startBackup''),
                   (''payload'', JObj [(''config'', JStr ''c''), (''backupInfo'', JObj [])])])
      else Inl [(''name'', JStr ''SyntaxError'')])"

definition toy_runtime :: js_runtime where
  "toy_runtime =
     \<lparr>JSON_parse = toy_parse,
      JSON_stringify = (\<lambda>v. v),
      template = toy_show,
      md5 = (\<lambda>bs. [word_of_nat (length bs)]),
      host_endianness = LittleEndian\<rparr>"

definition toy_env :: env where
  "toy_env =
     \<lparr>VERSION = [0, 0, 1],
      utc_now = \<lparr>year = 2018, month = 7, day = 4, hour = 9, minute = 5\<rparr>,
      checkDbDumpProgram = (\<lambda>t d. Inr ()),
      createBackupKey = (\<lambda>pk. Inr ([1, 2], [9, 9, 9])),
      startDumper = (\<lambda>k c. Inr ([[10, 11], [12]], [7, 7])),
      initMultipartUpload = (\<lambda>name c. Inr ''uid''),
      getUploadPartUrl = (\<lambda>bk n a h. Inr ''remote''),
      getUploadPartUrlFromLocalCredentials = (\<lambda>f u n h c. Inr ''local''),
      split_parts = (\<lambda>bs. [take 10 bs, drop 10 bs]),
      part_hash = (\<lambda>bs. ''h''),
      put_part = (\<lambda>n url bs. Inr ''etag''),
      finishUpload = (\<lambda>bk parts h a k. Inr ()),
      completeMultipartUpload = (\<lambda>f u parts c. Inr ()),
      early_deliveries = 3\<rparr>"

definition toy_config :: Config where
  "toy_config =
     \<lparr>subscriptionType = premium, agentId = ''agent'', dumpProgramsDirectory = ''/tmp'',
      publicKey = ''PK'', dbType = pg, dbName = ''mydb''\<rparr>"

section \<open>Sequencing lemmas\<close>

lemma seq_await_Inl: "seq (await ev (Inl e)) f = ([ev], Inl (e, []))"
  by (simp add: seq_def await_def)

lemma seq_await_Inr: "seq (await ev (Inr x)) f = (ev # fst (f x), snd (f x))"
  by (simp add: seq_def await_def split: prod.splits)

lemma seq_emit: "seq (emit evs) f = (evs @ fst (f ()), snd (f ()))"
  by (simp add: seq_def emit_def split: prod.splits)

lemma seq_returns: "seq (returns x) f = f x"
  by (simp add: seq_def returns_def split: prod.splits)

lemma seq_Inl: "snd m = Inl e \<Longrightarrow> seq m f = (fst m, Inl e)"
  by (cases m) (simp add: seq_def)

lemma seq_Inr: "snd m = Inr x \<Longrightarrow> seq m f = (fst m @ fst (f x), snd (f x))"
  by (cases m) (simp add: seq_def split: prod.splits)


text \<open>A property of every event of a job is proved step by step.\<close>

lemma seq_all:
  assumes "\<forall>ev\<in>set (fst m). P ev" and "\<And>x. snd m = Inr x \<Longrightarrow> \<forall>ev\<in>set (fst (f x)). P ev"
  shows "\<forall>ev\<in>set (fst (seq m f)). P ev"
  using assms by (cases "snd m") (auto simp: seq_Inl seq_Inr)

lemma upload_parts_all:
  assumes "\<And>k h. \<forall>ev\<in>set (fst (g k h)). P ev" and "\<And>k url. P (PutPart k url)"
  shows "\<forall>ev\<in>set (fst (upload_parts en g n ps)). P ev"
proof (induction ps arbitrary: n)
  case Nil
  then show ?case by (simp add: returns_def)
next
  case (Cons p ps)
  show ?case
    unfolding upload_parts.simps
    apply (rule seq_all)
     apply (rule assms(1))
    apply (rule seq_all)
     apply (simp add: await_def assms(2))
    apply (rule seq_all)
     apply (rule Cons.IH)
    apply (simp add: returns_def)
    done
qed

lemma generateBackupUrl_events:
  "fst (generateBackupUrl en config bk n h) =
     [Log Debug ''Getting multipart upload URL for part number''
        (Some (JObj [(''partNumber'', JNum (int n))])),
      if subscriptionType config = premium
      then GetUploadPartUrl bk n (agentId config) h
      else GetUploadPartUrlFromLocalCredentials (filename bk) (s3uploadId bk) n h]"
  by (simp add: generateBackupUrl_def seq_emit await_def)

lemma open_session_events:
  "fst (open_session en config bk) =
     (if subscriptionType config = free
      then [InitMultipartUpload (backup_filename (dbName config) (utc_now en))] else [])"
  by (auto simp: open_session_def Let_def seq_def await_def returns_def split: sum.splits)

lemma open_session_result:
  "snd (open_session en config bk) = Inr bk' \<Longrightarrow>
     bk' = (if subscriptionType config = free
            then bk\<lparr>filename := Some (backup_filename (dbName config) (utc_now en)),
                    s3uploadId := (case initMultipartUpload en (backup_filename (dbName config) (utc_now en)) config of Inr u \<Rightarrow> Some u | Inl e \<Rightarrow> None)\<rparr>
            else bk)"
  by (auto simp: open_session_def Let_def seq_def await_def returns_def split: sum.splits)

lemma finalize_events:
  "fst (finalize rt en config bk pe consumed) =
     [if subscriptionType config = premium
      then FinishUpload bk pe (hex (md5 rt consumed)) (agentId config) (publicKey config)
      else CompleteMultipartUpload (filename bk) (s3uploadId bk) pe]"
  by (cases "subscriptionType config") (auto simp: finalize_def await_def hash_read_def)

text \<open>A call that rejects leaves nothing for later: only the pipes do.\<close>

lemma await_throws: "snd (await ev r) = Inl (e, late) \<Longrightarrow> r = Inl e \<and> late = []"
  by (auto simp: await_def split: sum.splits)

lemma seq_throws:
  assumes "snd (seq m f) = Inl (e, late)"
    and "snd m = Inl (e, late) \<Longrightarrow> late = []"
    and "\<And>x. snd m = Inr x \<Longrightarrow> snd (f x) = Inl (e, late) \<Longrightarrow> late = []"
  shows "late = []"
  using assms by (cases "snd m") (auto simp: seq_Inl seq_Inr)

lemma open_session_throws:
  "snd (open_session en config seed) = Inl (e, late) \<Longrightarrow>
     subscriptionType config = free
     \<and> initMultipartUpload en (backup_filename (dbName config) (utc_now en)) config = Inl e
     \<and> late = []"
  by (auto simp: open_session_def Let_def seq_def await_def returns_def
      split: sum.splits if_splits)

lemma generateBackupUrl_throws:
  "snd (generateBackupUrl en config bk n h) = Inl (e, late) \<Longrightarrow> late = []"
  by (auto simp: generateBackupUrl_def seq_emit await_def split: sum.splits if_splits)

lemma upload_parts_throws:
  "snd (upload_parts en (generateBackupUrl en config bk) n ps) = Inl (e, late) \<Longrightarrow> late = []"
proof (induction ps arbitrary: n)
  case Nil
  then show ?case by (simp add: returns_def)
next
  case (Cons p ps)
  from Cons.prems show ?case
    unfolding upload_parts.simps
  proof (rule seq_throws)
    assume "snd (generateBackupUrl en config bk n (part_hash en p)) = Inl (e, late)"
    then show "late = []" by (rule generateBackupUrl_throws)
  next
    fix url
    assume "snd (seq (await (PutPart n url) (put_part en n url p))
                 (\<lambda>etag. seq (upload_parts en (generateBackupUrl en config bk) (Suc n) ps)
                    (\<lambda>rest. returns ((n, etag) # rest)))) = Inl (e, late)"
    then show "late = []"
    proof (rule seq_throws)
      assume "snd (await (PutPart n url) (put_part en n url p)) = Inl (e, late)"
      then show "late = []" by (simp add: await_throws)
    next
      fix etag
      assume "snd (seq (upload_parts en (generateBackupUrl en config bk) (Suc n) ps)
                   (\<lambda>rest. returns ((n, etag) # rest))) = Inl (e, late)"
      then show "late = []"
      proof (rule seq_throws)
        assume "snd (upload_parts en (generateBackupUrl en config bk) (Suc n) ps) = Inl (e, late)"
        then show "late = []" by (rule Cons.IH)
      next
        fix rest
        assume "snd (returns ((n, etag) # rest) :: (nat \<times> string) list job) = Inl (e, late)"
        then show "late = []" by (simp add: returns_def)
      qed
    qed
  qed
qed

lemma uploadToS3_throws:
  "snd (uploadToS3 en stream (generateBackupUrl en config bk)) = Inl (e, late) \<Longrightarrow> late = []"
  unfolding uploadToS3_def by (rule upload_parts_throws)

lemma finalize_throws:
  "snd (finalize rt en config bk pe consumed) = Inl (e, late) \<Longrightarrow> late = []"
  by (cases "subscriptionType config") (auto simp: finalize_def await_def split: sum.splits)

lemma foldl_hash_write: "foldl hash_write acc chunks = acc @ concat chunks"
  by (induction chunks arbitrary: acc) (simp_all add: hash_write_def)

text \<open>The three ways lines 38 to 91 can go: no session, a failed upload, a finalization.\<close>

lemma transfer_shape:
  obtains
    (session) e where
      "subscriptionType config = free"
      "initMultipartUpload en (backup_filename (dbName config) (utc_now en)) config = Inl e"
      "transfer rt en config seed header bs =
         (fst (open_session en config seed)
            @ take (early_deliveries en) (pipe_events header bs),
          Inl (e, drop (early_deliveries en) (pipe_events header bs)))"
  | (upload) bk e where
      "snd (open_session en config seed) = Inr bk"
      "snd (uploadToS3 en (concat (header @ bs)) (generateBackupUrl en config bk)) = Inl (e, [])"
      "transfer rt en config seed header bs =
         (fst (open_session en config seed) @ pipe_events header bs
            @ fst (uploadToS3 en (concat (header @ bs)) (generateBackupUrl en config bk)),
          Inl (e, []))"
  | (final) bk pe where
      "snd (open_session en config seed) = Inr bk"
      "snd (uploadToS3 en (concat (header @ bs)) (generateBackupUrl en config bk)) = Inr pe"
      "transfer rt en config seed header bs =
         (fst (open_session en config seed) @ pipe_events header bs
            @ fst (uploadToS3 en (concat (header @ bs)) (generateBackupUrl en config bk))
            @ [Log Info ''Informing server the upload is finished'' None, HashEnd]
            @ fst (finalize rt en config bk pe (concat (header @ bs)))
            @ (case snd (finalize rt en config bk pe (concat (header @ bs))) of
                 Inl e \<Rightarrow> [] | Inr u \<Rightarrow> [Log Info ''backup finished !'' None, ProcessExit 0]),
          snd (finalize rt en config bk pe (concat (header @ bs))))"
proof (cases "snd (open_session en config seed)")
  case (Inl t)
  obtain e late where t: "t = (e, late)" by (cases t)
  from open_session_throws[OF Inl[unfolded t]]
  have f: "subscriptionType config = free"
    and i: "initMultipartUpload en (backup_filename (dbName config) (utc_now en)) config = Inl e"
    and l: "late = []" by simp_all
  have "piped (early_deliveries en) (pipe_events header bs) (open_session en config seed)
        = (fst (open_session en config seed) @ take (early_deliveries en) (pipe_events header bs),
           Inl (e, drop (early_deliveries en) (pipe_events header bs)))"
    using Inl t l by (cases "open_session en config seed") (simp add: piped_def)
  then have "transfer rt en config seed header bs =
         (fst (open_session en config seed)
            @ take (early_deliveries en) (pipe_events header bs),
          Inl (e, drop (early_deliveries en) (pipe_events header bs)))"
    by (simp add: transfer_def seq_Inl)
  with f i show ?thesis by (rule session)
next
  case (Inr bk)
  note s = this
  have p: "piped (early_deliveries en) (pipe_events header bs) (open_session en config seed)
        = (fst (open_session en config seed) @ pipe_events header bs, Inr bk)"
    using Inr by (cases "open_session en config seed") (simp add: piped_def)
  show ?thesis
  proof (cases "snd (uploadToS3 en (concat (header @ bs)) (generateBackupUrl en config bk))")
    case (Inl t)
    obtain e late where t: "t = (e, late)" by (cases t)
    from uploadToS3_throws[OF Inl[unfolded t]] have l: "late = []" .
    note u = Inl[unfolded t l]
    from s u show ?thesis
      by (intro upload[of bk e]) (simp_all add: transfer_def p seq_Inr seq_Inl Let_def)
  next
    case (Inr pe)
    with s show ?thesis
      by (intro final[of bk pe])
        (auto simp add: transfer_def p seq_Inr seq_Inl seq_emit Let_def foldl_hash_write
          createHash_def emit_def split: sum.splits)
  qed
qed

text \<open>The four ways the \<^verbatim>\<open>try\<close> block can go, by the first step that fails.\<close>

lemma try_block_shape:
  obtains
    (check) e where
      "checkDbDumpProgram en (dbType config) (dumpProgramsDirectory config) = Inl e"
      "try_block rt en config info =
         ([CheckDbDumpProgram (dbType config) (dumpProgramsDirectory config)], Inl (e, []))"
  | (key) e where
      "createBackupKey en (publicKey config) = Inl e"
      "try_block rt en config info =
         ([CheckDbDumpProgram (dbType config) (dumpProgramsDirectory config),
           CreateBackupKey (publicKey config)], Inl (e, []))"
  | (dumper) k ek e where
      "createBackupKey en (publicKey config) = Inr (k, ek)"
      "startDumper en k config = Inl e"
      "try_block rt en config info =
         ([CheckDbDumpProgram (dbType config) (dumpProgramsDirectory config),
           CreateBackupKey (publicKey config), StartDumper k], Inl (e, []))"
  | (streaming) k ek bs iv where
      "checkDbDumpProgram en (dbType config) (dumpProgramsDirectory config) = Inr ()"
      "createBackupKey en (publicKey config) = Inr (k, ek)"
      "startDumper en k config = Inr (bs, iv)"
      "try_block rt en config info =
         ([CheckDbDumpProgram (dbType config) (dumpProgramsDirectory config),
           CreateBackupKey (publicKey config), StartDumper k,
           Log Debug ''Creating backup file stream PassThrough'' None]
          @ map StreamWrite (header_writes rt (VERSION en) ek iv)
          @ fst (transfer rt en config (initial_backup info)
                   (header_writes rt (VERSION en) ek iv) bs),
          snd (transfer rt en config (initial_backup info)
                   (header_writes rt (VERSION en) ek iv) bs))"
proof (cases "checkDbDumpProgram en (dbType config) (dumpProgramsDirectory config)")
  case (Inl e)
  then show ?thesis
    by (intro check[of e]) (simp_all add: try_block_def seq_await_Inl)
next
  case (Inr u)
  note c = this
  show ?thesis
  proof (cases "createBackupKey en (publicKey config)")
    case (Inl e)
    with c show ?thesis
      by (intro key[of e]) (simp_all add: try_block_def seq_await_Inl seq_await_Inr)
  next
    case (Inr kk)
    obtain k ek where kk: "kk = (k, ek)" by (cases kk)
    note ky = Inr[unfolded kk]
    show ?thesis
    proof (cases "startDumper en k config")
      case (Inl e)
      with c ky show ?thesis
        by (intro dumper[of k ek e]) (simp_all add: try_block_def seq_await_Inl seq_await_Inr)
    next
      case (Inr si)
      obtain bs iv where si: "si = (bs, iv)" by (cases si)
      note d = Inr[unfolded si]
      from c ky d show ?thesis
        by (intro streaming[of k ek bs iv])
          (simp_all add: try_block_def seq_await_Inl seq_await_Inr seq_emit Let_def)
    qed
  qed
qed

section \<open>The catch block and the terminal events\<close>

lemma member_truthy: "truthy v \<Longrightarrow> \<exists>d. member v k = Inr d"
  by (cases v) simp_all

lemma caught_detail_object: "caught_detail (JObj e) = Inr (claimed_detail e)"
proof (cases "truthy (property e ''response'')")
  case True
  then obtain d where "member (property e ''response'') ''data'' = Inr d"
    using member_truthy by blast
  with True show ?thesis
    by (simp add: caught_detail_def claimed_detail_def or_else_def and_then_def chain_def)
next
  case False
  then show ?thesis
    by (simp add: caught_detail_def claimed_detail_def or_else_def and_then_def chain_def)
qed

lemma catch_block_object:
  "catch_block rt (JObj e) =
     [Log Error ''Unknown error while creating backup''
        (Some (JObj [(''error'', claimed_detail e)])),
      ProcessSend (error_message rt
        (template rt (JSON_stringify rt (claimed_detail e)) @ [CHR 0x0A]
           @ template rt (property e ''stack'')))]"
  by (simp add: catch_block_def caught_payload_def caught_detail_object chain_def)

lemma pipe_events_quiet: "\<forall>ev\<in>set (pipe_events header bs). \<not> is_terminal ev"
  by (auto simp: pipe_events_def is_terminal_def)

lemma uploadToS3_quiet:
  "\<forall>ev\<in>set (fst (uploadToS3 en stream (generateBackupUrl en config bk))). \<not> is_terminal ev"
  unfolding uploadToS3_def
  by (rule upload_parts_all) (auto simp: generateBackupUrl_events is_terminal_def)

lemma open_session_quiet: "\<forall>ev\<in>set (fst (open_session en config bk)). \<not> is_terminal ev"
  by (simp add: open_session_events is_terminal_def)

lemma finalize_quiet:
  "\<forall>ev\<in>set (fst (finalize rt en config bk pe consumed)). \<not> is_terminal ev"
  by (simp add: finalize_events is_terminal_def)

lemma transfer_outcome:
  "(\<exists>e late. snd (transfer rt en config seed header bs) = Inl (e, late)
       \<and> (\<forall>ev\<in>set (fst (transfer rt en config seed header bs)). \<not> is_terminal ev)
       \<and> (\<forall>ev\<in>set late. \<not> is_terminal ev))
   \<or> (snd (transfer rt en config seed header bs) = Inr ()
       \<and> (\<exists>pre. fst (transfer rt en config seed header bs) = pre @ [ProcessExit 0]
             \<and> (\<forall>ev\<in>set pre. \<not> is_terminal ev)))"
proof (cases rule: transfer_shape[where rt=rt and en=en and config=config and seed=seed and header=header and bs=bs])
  case (session e)
  have "\<forall>ev\<in>set (take (early_deliveries en) (pipe_events header bs)). \<not> is_terminal ev"
    using pipe_events_quiet[of header bs] by (meson in_set_takeD)
  moreover have "\<forall>ev\<in>set (drop (early_deliveries en) (pipe_events header bs)). \<not> is_terminal ev"
    using pipe_events_quiet[of header bs] by (meson in_set_dropD)
  ultimately show ?thesis using session(3) open_session_quiet[of en config seed] by auto
next
  case (upload bk e)
  then show ?thesis
    using open_session_quiet[of en config seed] pipe_events_quiet[of header bs]
      uploadToS3_quiet[of en "concat (header @ bs)" config bk]
    by auto
next
  case (final bk pe)
  show ?thesis
  proof (cases "snd (finalize rt en config bk pe (concat (header @ bs)))")
    case (Inl t)
    obtain e late where t: "t = (e, late)" by (cases t)
    from finalize_throws[OF Inl[unfolded t]] have l: "late = []" .
    from final Inl t l show ?thesis
      using open_session_quiet[of en config seed] pipe_events_quiet[of header bs]
        uploadToS3_quiet[of en "concat (header @ bs)" config bk]
        finalize_quiet[of rt en config bk pe "concat (header @ bs)"]
      by (auto simp: is_terminal_def)
  next
    case (Inr u)
    let ?pre = "fst (open_session en config seed) @ pipe_events header bs
            @ fst (uploadToS3 en (concat (header @ bs)) (generateBackupUrl en config bk))
            @ [Log Info ''Informing server the upload is finished'' None, HashEnd]
            @ fst (finalize rt en config bk pe (concat (header @ bs)))
            @ [Log Info ''backup finished !'' None]"
    have "fst (transfer rt en config seed header bs) = ?pre @ [ProcessExit 0]"
      using final Inr by simp
    moreover have "\<forall>ev\<in>set ?pre. \<not> is_terminal ev"
      using open_session_quiet[of en config seed] pipe_events_quiet[of header bs]
        uploadToS3_quiet[of en "concat (header @ bs)" config bk]
        finalize_quiet[of rt en config bk pe "concat (header @ bs)"]
      by (auto simp: is_terminal_def)
    moreover have "snd (transfer rt en config seed header bs) = Inr ()"
      using final Inr by simp
    ultimately show ?thesis by blast
  qed
qed

lemma try_block_outcome:
  "(\<exists>e late. snd (try_block rt en config info) = Inl (e, late)
       \<and> (\<forall>ev\<in>set (fst (try_block rt en config info)). \<not> is_terminal ev)
       \<and> (\<forall>ev\<in>set late. \<not> is_terminal ev))
   \<or> (snd (try_block rt en config info) = Inr ()
       \<and> (\<exists>pre. fst (try_block rt en config info) = pre @ [ProcessExit 0]
             \<and> (\<forall>ev\<in>set pre. \<not> is_terminal ev)))"
proof (cases rule: try_block_shape[where rt=rt and en=en and config=config and info=info])
  case (check e)
  then show ?thesis by (simp add: is_terminal_def)
next
  case (key e)
  then show ?thesis by (simp add: is_terminal_def)
next
  case (dumper k ek e)
  then show ?thesis by (simp add: is_terminal_def)
next
  case (streaming k ek bs iv)
  let ?h = "header_writes rt (VERSION en) ek iv"
  let ?t = "transfer rt en config (initial_backup info) ?h bs"
  let ?p = "[CheckDbDumpProgram (dbType config) (dumpProgramsDirectory config),
           CreateBackupKey (publicKey config), StartDumper k,
           Log Debug ''Creating backup file stream PassThrough'' None]
          @ map StreamWrite ?h"
  have p: "\<forall>ev\<in>set ?p. \<not> is_terminal ev" by (auto simp: is_terminal_def)
  from transfer_outcome[of rt en config "initial_backup info" ?h bs]
  show ?thesis
  proof
    assume "\<exists>e late. snd ?t = Inl (e, late) \<and> (\<forall>ev\<in>set (fst ?t). \<not> is_terminal ev)
              \<and> (\<forall>ev\<in>set late. \<not> is_terminal ev)"
    with streaming(4) p show ?thesis by auto
  next
    assume "snd ?t = Inr () \<and> (\<exists>pre. fst ?t = pre @ [ProcessExit 0] \<and> (\<forall>ev\<in>set pre. \<not> is_terminal ev))"
    then obtain pre where t: "snd ?t = Inr ()" "fst ?t = pre @ [ProcessExit 0]"
      "\<forall>ev\<in>set pre. \<not> is_terminal ev" by blast
    have "fst (try_block rt en config info) = (?p @ pre) @ [ProcessExit 0]"
      using streaming(4) t(2) by simp
    moreover have "\<forall>ev\<in>set (?p @ pre). \<not> is_terminal ev" using p t(3) by auto
    moreover have "snd (try_block rt en config info) = Inr ()" using streaming(4) t(1) by simp
    ultimately show ?thesis by blast
  qed
qed

lemma sent_quiet: "\<forall>ev\<in>set evs. \<not> is_terminal ev \<Longrightarrow> sent evs = []"
  by (induction evs) (auto simp: sent_def is_terminal_def split: event.splits)

lemma clean_exit_quiet: "\<forall>ev\<in>set evs. \<not> is_terminal ev \<Longrightarrow> \<not> clean_exit evs"
  by (auto simp: clean_exit_def is_terminal_def)

lemma sent_append: "sent (xs @ ys) = sent xs @ sent ys"
  by (simp add: sent_def)

lemma clean_exit_append: "clean_exit (xs @ ys) \<longleftrightarrow> clean_exit xs \<or> clean_exit ys"
  by (auto simp: clean_exit_def)

lemma backupDatabase_eq:
  "backupDatabase rt en config info =
     fst (try_block rt en config info)
       @ (case snd (try_block rt en config info) of
            Inl (e, late) \<Rightarrow> catch_block rt (JObj e) @ late | Inr u \<Rightarrow> [])"
  by (cases "try_block rt en config info")
    (auto simp: backupDatabase_def split: sum.splits prod.splits)

text \<open>
  What \<^verbatim>\<open>backupDatabase\<close> signals: a clean exit and no message, or one message and no
  clean exit.
\<close>

lemma backupDatabase_one_outcome:
  "(clean_exit (backupDatabase rt en config info) \<and> sent (backupDatabase rt en config info) = [])
   \<or> (\<not> clean_exit (backupDatabase rt en config info)
       \<and> length (sent (backupDatabase rt en config info)) = 1)"
proof -
  from try_block_outcome[of rt en config info] show ?thesis
  proof
    assume "\<exists>e late. snd (try_block rt en config info) = Inl (e, late)
       \<and> (\<forall>ev\<in>set (fst (try_block rt en config info)). \<not> is_terminal ev)
       \<and> (\<forall>ev\<in>set late. \<not> is_terminal ev)"
    then obtain e late where e: "snd (try_block rt en config info) = Inl (e, late)"
      and q: "\<forall>ev\<in>set (fst (try_block rt en config info)). \<not> is_terminal ev"
      and l: "\<forall>ev\<in>set late. \<not> is_terminal ev" by blast
    have b: "backupDatabase rt en config info
               = fst (try_block rt en config info) @ catch_block rt (JObj e) @ late"
      using e by (simp add: backupDatabase_eq)
    show ?thesis
      using sent_quiet[OF q] clean_exit_quiet[OF q] sent_quiet[OF l] clean_exit_quiet[OF l]
      by (simp add: b catch_block_object sent_append clean_exit_append)
        (simp add: sent_def clean_exit_def)
  next
    assume "snd (try_block rt en config info) = Inr ()
       \<and> (\<exists>pre. fst (try_block rt en config info) = pre @ [ProcessExit 0]
             \<and> (\<forall>ev\<in>set pre. \<not> is_terminal ev))"
    then obtain pre where r: "snd (try_block rt en config info) = Inr ()"
      and p: "fst (try_block rt en config info) = pre @ [ProcessExit 0]"
      and q: "\<forall>ev\<in>set pre. \<not> is_terminal ev" by blast
    have b: "backupDatabase rt en config info = pre @ [ProcessExit 0]"
      using r p by (simp add: backupDatabase_eq)
    show ?thesis
      using sent_quiet[OF q]
      by (simp add: b sent_append clean_exit_append) (simp add: sent_def clean_exit_def)
  qed
qed

lemma member_type_start:
  "member v ''type'' = Inr (JStr ''startBackup'') \<Longrightarrow>
     \<exists>ps. v = JObj ps \<and> map_of ps ''type'' = Some (JStr ''startBackup'')"
  by (cases v) (auto simp: property_def split: option.splits)

section \<open>Reading the trace of a run\<close>

lemma stream_written_append: "stream_written (xs @ ys) = stream_written xs @ stream_written ys"
  by (simp add: stream_written_def)

lemma hashed_append: "hashed (xs @ ys) = hashed xs @ hashed ys"
  by (simp add: hashed_def)

lemma stream_written_Nil: "stream_written [] = []"
  by (simp add: stream_written_def)

lemma stream_written_Cons:
  "stream_written (ev # evs) =
     (case ev of StreamWrite b \<Rightarrow> [b] | _ \<Rightarrow> []) @ stream_written evs"
  by (simp add: stream_written_def)

lemma hashed_Nil: "hashed [] = []"
  by (simp add: hashed_def)

lemma hashed_Cons:
  "hashed (ev # evs) = (case ev of HashUpdate b \<Rightarrow> [b] | _ \<Rightarrow> []) @ hashed evs"
  by (simp add: hashed_def)

lemma stream_written_header: "stream_written (map StreamWrite h) = h"
  by (induction h) (simp_all add: stream_written_def)

lemma hashed_header: "hashed (map StreamWrite h) = []"
  by (induction h) (simp_all add: hashed_def)

lemma stream_written_pipe: "stream_written (pipe_events header bs) = bs"
proof -
  have a: "stream_written (map HashUpdate header) = []"
    by (induction header) (simp_all add: stream_written_def)
  have b: "stream_written (concat (map (\<lambda>c. [StreamWrite c, HashUpdate c]) bs)) = bs"
    by (induction bs) (simp_all add: stream_written_def)
  show ?thesis by (simp add: pipe_events_def stream_written_append a b)
qed

lemma hashed_pipe: "hashed (pipe_events header bs) = header @ bs"
proof -
  have a: "hashed (map HashUpdate header) = header"
    by (induction header) (simp_all add: hashed_def)
  have b: "hashed (concat (map (\<lambda>c. [StreamWrite c, HashUpdate c]) bs)) = bs"
    by (induction bs) (simp_all add: hashed_def)
  show ?thesis by (simp add: pipe_events_def hashed_append a b)
qed

lemma stream_written_take_drop:
  "stream_written (take n evs) @ stream_written (drop n evs) = stream_written evs"
  by (simp add: stream_written_append[symmetric])

lemma pipe_events_not_final: "\<forall>ev\<in>set (pipe_events header bs). \<not> is_finalization ev"
  by (auto simp: pipe_events_def is_finalization_def)

lemma HashEnd_not_piped: "HashEnd \<notin> set (pipe_events header bs)"
  by (auto simp: pipe_events_def)

lemma upload_events_silent:
  assumes "\<forall>ev\<in>set evs. upload_event ev"
  shows "stream_written evs = []" and "hashed evs = []" and "HashEnd \<notin> set evs"
    and "\<forall>ev\<in>set evs. \<not> is_finalization ev"
  using assms
  by (induction evs)
    (auto simp: upload_event_def stream_written_def hashed_def is_finalization_def
      split: event.splits)

text \<open>Every run of \<^verbatim>\<open>backupDatabase\<close> has one of four shapes.\<close>

lemma uploadToS3_upload_events:
  "\<forall>ev\<in>set (fst (uploadToS3 en stream (generateBackupUrl en config bk))). upload_event ev"
  unfolding uploadToS3_def
  by (rule upload_parts_all) (auto simp: generateBackupUrl_events upload_event_def)

lemma run_cases:
  obtains
    (early) evs e where
      "backupDatabase rt en config info = evs @ catch_block rt (JObj e)"
      "\<forall>ev\<in>set evs. (\<exists>t d. ev = CheckDbDumpProgram t d) \<or> (\<exists>p. ev = CreateBackupKey p)
          \<or> (\<exists>k. ev = StartDumper k)"
      "\<And>k ek bs iv.
         \<not> (checkDbDumpProgram en (dbType config) (dumpProgramsDirectory config) = Inr ()
            \<and> createBackupKey en (publicKey config) = Inr (k, ek)
            \<and> startDumper en k config = Inr (bs, iv))"
  | (no_session) k ek bs iv e where
      "checkDbDumpProgram en (dbType config) (dumpProgramsDirectory config) = Inr ()"
      "createBackupKey en (publicKey config) = Inr (k, ek)"
      "startDumper en k config = Inr (bs, iv)"
      "subscriptionType config = free"
      "initMultipartUpload en (backup_filename (dbName config) (utc_now en)) config = Inl e"
      "backupDatabase rt en config info =
         [CheckDbDumpProgram (dbType config) (dumpProgramsDirectory config),
          CreateBackupKey (publicKey config), StartDumper k,
          Log Debug ''Creating backup file stream PassThrough'' None]
         @ map StreamWrite (header_writes rt (VERSION en) ek iv)
         @ [InitMultipartUpload (backup_filename (dbName config) (utc_now en))]
         @ take (early_deliveries en) (pipe_events (header_writes rt (VERSION en) ek iv) bs)
         @ catch_block rt (JObj e)
         @ drop (early_deliveries en) (pipe_events (header_writes rt (VERSION en) ek iv) bs)"
  | (upload_failed) k ek bs iv bk e where
      "checkDbDumpProgram en (dbType config) (dumpProgramsDirectory config) = Inr ()"
      "createBackupKey en (publicKey config) = Inr (k, ek)"
      "startDumper en k config = Inr (bs, iv)"
      "snd (open_session en config (initial_backup info)) = Inr bk"
      "snd (uploadToS3 en (concat (header_writes rt (VERSION en) ek iv @ bs))
              (generateBackupUrl en config bk)) = Inl (e, [])"
      "backupDatabase rt en config info =
         [CheckDbDumpProgram (dbType config) (dumpProgramsDirectory config),
          CreateBackupKey (publicKey config), StartDumper k,
          Log Debug ''Creating backup file stream PassThrough'' None]
         @ map StreamWrite (header_writes rt (VERSION en) ek iv)
         @ fst (open_session en config (initial_backup info))
         @ pipe_events (header_writes rt (VERSION en) ek iv) bs
         @ fst (uploadToS3 en (concat (header_writes rt (VERSION en) ek iv @ bs))
                  (generateBackupUrl en config bk))
         @ catch_block rt (JObj e)"
  | (finalized) k ek bs iv bk pe where
      "checkDbDumpProgram en (dbType config) (dumpProgramsDirectory config) = Inr ()"
      "createBackupKey en (publicKey config) = Inr (k, ek)"
      "startDumper en k config = Inr (bs, iv)"
      "snd (open_session en config (initial_backup info)) = Inr bk"
      "snd (uploadToS3 en (concat (header_writes rt (VERSION en) ek iv @ bs))
              (generateBackupUrl en config bk)) = Inr pe"
      "backupDatabase rt en config info =
         ([CheckDbDumpProgram (dbType config) (dumpProgramsDirectory config),
           CreateBackupKey (publicKey config), StartDumper k,
           Log Debug ''Creating backup file stream PassThrough'' None]
          @ map StreamWrite (header_writes rt (VERSION en) ek iv)
          @ fst (open_session en config (initial_backup info))
          @ pipe_events (header_writes rt (VERSION en) ek iv) bs
          @ fst (uploadToS3 en (concat (header_writes rt (VERSION en) ek iv @ bs))
                   (generateBackupUrl en config bk))
          @ [Log Info ''Informing server the upload is finished'' None, HashEnd])
         @ (if subscriptionType config = premium
            then FinishUpload bk pe
                   (hex (md5 rt (concat (header_writes rt (VERSION en) ek iv @ bs))))
                   (agentId config) (publicKey config)
            else CompleteMultipartUpload (filename bk) (s3uploadId bk) pe)
         # (case snd (finalize rt en config bk pe
                        (concat (header_writes rt (VERSION en) ek iv @ bs))) of
              Inl t \<Rightarrow> catch_block rt (JObj (fst t))
            | Inr u \<Rightarrow> [Log Info ''backup finished !'' None, ProcessExit 0])"
proof (cases rule: try_block_shape[where rt=rt and en=en and config=config and info=info])
  case (check e)
  show ?thesis
    by (rule early[of "[CheckDbDumpProgram (dbType config) (dumpProgramsDirectory config)]" e])
      (simp_all add: backupDatabase_eq check)
next
  case (key e)
  show ?thesis
    by (rule early[of "[CheckDbDumpProgram (dbType config) (dumpProgramsDirectory config),
           CreateBackupKey (publicKey config)]" e])
      (simp_all add: backupDatabase_eq key)
next
  case (dumper k ek e)
  show ?thesis
    by (rule early[of "[CheckDbDumpProgram (dbType config) (dumpProgramsDirectory config),
           CreateBackupKey (publicKey config), StartDumper k]" e])
      (auto simp add: backupDatabase_eq dumper)
next
  case (streaming k ek bs iv)
  note st = this
  let ?h = "header_writes rt (VERSION en) ek iv"
  show ?thesis
  proof (cases rule: transfer_shape[where rt=rt and en=en and config=config
        and seed="initial_backup info" and header="?h" and bs=bs])
    case (session e)
    show ?thesis
      by (rule no_session[of k ek bs iv e])
        (simp_all add: st backupDatabase_eq session open_session_events)
  next
    case (upload bk e)
    show ?thesis
      by (rule upload_failed[of k ek bs iv bk e])
        (use st upload in \<open>simp_all add: backupDatabase_eq\<close>)
  next
    case (final bk pe)
    have l: "\<And>e late. snd (finalize rt en config bk pe (concat (?h @ bs))) = Inl (e, late)
                \<Longrightarrow> late = []"
      by (rule finalize_throws)
    show ?thesis
      by (rule finalized[of k ek bs iv bk pe])
        (use st final l in \<open>auto simp add: backupDatabase_eq finalize_events
            split: sum.splits prod.splits\<close>)
  qed
qed

lemma catch_block_silent:
  "stream_written (catch_block rt (JObj e)) = []"
  "hashed (catch_block rt (JObj e)) = []"
  "\<forall>ev\<in>set (catch_block rt (JObj e)). \<not> is_finalization ev"
  "\<forall>ev\<in>set (catch_block rt (JObj e)). \<not> is_direct ev \<and> \<not> is_delegated ev"
  by (simp_all add: catch_block_object stream_written_def hashed_def is_finalization_def
      is_direct_def is_delegated_def)

lemma open_session_silent:
  "stream_written (fst (open_session en config seed)) = []"
  "hashed (fst (open_session en config seed)) = []"
  "\<forall>ev\<in>set (fst (open_session en config seed)). \<not> is_finalization ev"
  "HashEnd \<notin> set (fst (open_session en config seed))"
  by (simp_all add: open_session_events stream_written_def hashed_def is_finalization_def)

lemmas uploadToS3_silent = upload_events_silent[OF uploadToS3_upload_events]

lemma unique_split:
  assumes "\<forall>x\<in>set A. \<not> P x" and "\<forall>x\<in>set B. \<not> P x" and "P ev"
    and "A @ fin # B = pre @ ev # post"
  shows "pre = A \<and> ev = fin \<and> post = B"
  using assms
proof (induction A arbitrary: pre)
  case Nil
  then show ?case by (cases pre) auto
next
  case (Cons a A)
  then show ?case by (cases pre) auto
qed

lemma finalization_occurs:
  "tr = pre @ ev # post \<Longrightarrow> is_finalization ev \<Longrightarrow> \<exists>x\<in>set tr. is_finalization x"
  by auto

lemma is_finalization_simps:
  "is_finalization (FinishUpload bk pe h a k)"
  "is_finalization (CompleteMultipartUpload f u pe)"
  "\<not> is_finalization (Log l m d)"
  "\<not> is_finalization (CheckDbDumpProgram t dir)"
  "\<not> is_finalization (CreateBackupKey pk)"
  "\<not> is_finalization (StartDumper key)"
  "\<not> is_finalization (StreamWrite b)"
  "\<not> is_finalization (InitMultipartUpload n)"
  "\<not> is_finalization HashEnd"
  "\<not> is_finalization (ProcessExit c)"
  by (simp_all add: is_finalization_def)

lemma upload_parts_numbers:
  "snd (upload_parts en g n ps) = Inr pe \<Longrightarrow> map fst pe = [n ..< n + length ps]"
proof (induction ps arbitrary: n pe)
  case Nil
  then show ?case by (simp add: returns_def)
next
  case (Cons p ps)
  from Cons.prems obtain url etag rest where
    r: "snd (upload_parts en g (Suc n) ps) = Inr rest" and pe: "pe = (n, etag) # rest"
    by (auto simp: seq_def await_def returns_def split: prod.splits sum.splits)
  from Cons.IH[OF r] pe show ?case by (simp add: upt_rec)
qed

lemma open_session_free:
  assumes "snd (open_session en config seed) = Inr bk" and "subscriptionType config = free"
  shows "\<exists>uploadId.
           initMultipartUpload en (backup_filename (dbName config) (utc_now en)) config = Inr uploadId
         \<and> bk = seed\<lparr>filename := Some (backup_filename (dbName config) (utc_now en)),
                     s3uploadId := Some uploadId\<rparr>"
  using assms
  by (auto simp: open_session_def Let_def seq_def await_def returns_def split: sum.splits)

lemma open_session_premium:
  assumes "snd (open_session en config seed) = Inr bk" and "subscriptionType config = premium"
  shows "bk = seed"
  using assms by (simp add: open_session_def returns_def)

lemma finalization_split:
  assumes "backupDatabase rt en config info = pre @ ev # post" and "is_finalization ev"
  obtains k ek bs iv bk pe where
    "createBackupKey en (publicKey config) = Inr (k, ek)"
    "startDumper en k config = Inr (bs, iv)"
    "snd (open_session en config (initial_backup info)) = Inr bk"
    "snd (uploadToS3 en (concat (header_writes rt (VERSION en) ek iv @ bs))
            (generateBackupUrl en config bk)) = Inr pe"
    "hashed pre = header_writes rt (VERSION en) ek iv @ bs"
    "stream_written pre = header_writes rt (VERSION en) ek iv @ bs"
    "HashEnd \<in> set pre"
    "hashed post = []"
    "stream_written post = []"
    "ev = (if subscriptionType config = premium
           then FinishUpload bk pe
                  (hex (md5 rt (concat (header_writes rt (VERSION en) ek iv @ bs))))
                  (agentId config) (publicKey config)
           else CompleteMultipartUpload (filename bk) (s3uploadId bk) pe)"
proof (cases rule: run_cases[where rt=rt and en=en and config=config and info=info])
  case (early evs e)
  have "\<forall>x\<in>set (evs @ catch_block rt (JObj e)). \<not> is_finalization x"
    using early(2) catch_block_silent(3)[of rt e] by (auto simp: is_finalization_def)
  with early(1) finalization_occurs[OF assms] show ?thesis by simp
next
  case (no_session k ek bs iv e)
  have "\<forall>x\<in>set (backupDatabase rt en config info). \<not> is_finalization x"
    unfolding no_session(6)
    using catch_block_silent(3)[of rt e]
      pipe_events_not_final[of "header_writes rt (VERSION en) ek iv" bs]
    by (auto simp: is_finalization_simps dest: in_set_takeD in_set_dropD)
  with finalization_occurs[OF assms] show ?thesis by blast
next
  case (upload_failed k ek bs iv bk e)
  have "\<forall>x\<in>set (backupDatabase rt en config info). \<not> is_finalization x"
    unfolding upload_failed(6)
    using catch_block_silent(3)[of rt e] open_session_silent(3)[of en config "initial_backup info"]
      pipe_events_not_final uploadToS3_silent(4)
    by (auto simp: is_finalization_simps)
  with finalization_occurs[OF assms] show ?thesis by blast
next
  case (finalized k ek bs iv bk pe)
  let ?h = "header_writes rt (VERSION en) ek iv"
  let ?A = "[CheckDbDumpProgram (dbType config) (dumpProgramsDirectory config),
           CreateBackupKey (publicKey config), StartDumper k,
           Log Debug ''Creating backup file stream PassThrough'' None]
          @ map StreamWrite ?h
          @ fst (open_session en config (initial_backup info))
          @ pipe_events ?h bs
          @ fst (uploadToS3 en (concat (?h @ bs)) (generateBackupUrl en config bk))
          @ [Log Info ''Informing server the upload is finished'' None, HashEnd]"
  let ?fin = "if subscriptionType config = premium
            then FinishUpload bk pe (hex (md5 rt (concat (?h @ bs))))
                   (agentId config) (publicKey config)
            else CompleteMultipartUpload (filename bk) (s3uploadId bk) pe"
  let ?B = "case snd (finalize rt en config bk pe (concat (?h @ bs))) of
              Inl t \<Rightarrow> catch_block rt (JObj (fst t))
            | Inr u \<Rightarrow> [Log Info ''backup finished !'' None, ProcessExit 0]"
  have A: "\<forall>x\<in>set ?A. \<not> is_finalization x"
    using open_session_silent(3)[of en config "initial_backup info"]
      pipe_events_not_final uploadToS3_silent(4)
    by (auto simp: is_finalization_simps)
  have B: "\<forall>x\<in>set ?B. \<not> is_finalization x"
    using catch_block_silent(3) by (auto simp: is_finalization_simps split: sum.splits)
  from finalized(6) assms(1) have "?A @ ?fin # ?B = pre @ ev # post" by simp
  from unique_split[of ?A is_finalization ?B ev ?fin pre post, OF A B assms(2) this]
  have pre: "pre = ?A" and ev: "ev = ?fin" and post: "post = ?B" by simp_all
  have h: "hashed pre = ?h @ bs"
    by (simp add: pre hashed_append hashed_header open_session_silent hashed_pipe
        uploadToS3_silent hashed_Cons hashed_Nil)
  have w: "stream_written pre = ?h @ bs"
    by (simp add: pre stream_written_append stream_written_header open_session_silent
        stream_written_pipe uploadToS3_silent stream_written_Cons stream_written_Nil)
  have e: "HashEnd \<in> set pre" by (simp add: pre)
  have p: "hashed post = []" "stream_written post = []"
    by (auto simp add: post catch_block_silent hashed_Cons hashed_Nil stream_written_Cons
        stream_written_Nil split: sum.splits)
  from finalized(2,3,4,5) h w e p ev show ?thesis by (rule that)
qed

section \<open>The length field\<close>

lemma unat_byte_of_word: "unat (ucast (w :: 32 word) :: 8 word) = unat w mod 256"
  by (simp add: unsigned_ucast_eq take_bit_eq_mod)

lemma unat_shifted_word: "unat (drop_bit k (w :: 32 word)) = unat w div 2 ^ k"
  by (subst unat_drop_bit_eq) (simp add: drop_bit_eq_div)

lemma unat_uint32_le:
  "map unat (uint32_le w) =
     [unat w mod 256, unat w div 256 mod 256, unat w div 65536 mod 256,
      unat w div 16777216 mod 256]"
  by (simp add: uint32_le_def unat_byte_of_word unat_shifted_word)

lemma base256_linear:
  fixes n :: nat
  assumes "n = a + 256 * q1" and "q1 = b + 256 * q2" and "q2 = c + 256 * q3"
  shows "a + 256 * b + 65536 * c + 16777216 * q3 = n"
  using assms by simp

lemma base256_digits:
  fixes n :: nat
  shows "n mod 256 + 256 * (n div 256 mod 256) + 65536 * (n div 65536 mod 256)
           + 16777216 * (n div 16777216) = n"
proof -
  have a: "n div 65536 = n div 256 div 256" by (simp add: div_mult2_eq)
  have b: "n div 16777216 = n div 256 div 256 div 256" by (simp add: div_mult2_eq)
  have "n mod 256 + 256 * (n div 256 mod 256) + 65536 * (n div 256 div 256 mod 256)
           + 16777216 * (n div 256 div 256 div 256) = n"
    by (rule base256_linear) simp_all
  then show ?thesis by (simp only: a b)
qed

lemma unat_word32_of_nat: "n < 4294967296 \<Longrightarrow> unat (word_of_nat n :: 32 word) = n"
  by (simp add: unat_of_nat)

lemma read_uint32_le: "read_uint32 LittleEndian (uint32_le w) = unat w"
proof -
  have b: "unat w < 4294967296" using unsigned_less[of w, where 'a = nat] by simp
  then have t: "unat w div 16777216 mod 256 = unat w div 16777216" by simp
  have "read_uint32 LittleEndian (uint32_le w) =
          unat w mod 256 + 256 * (unat w div 256 mod 256) + 65536 * (unat w div 65536 mod 256)
           + 16777216 * (unat w div 16777216 mod 256)"
    by (simp add: read_uint32_def uint32_le_def unat_byte_of_word unat_shifted_word)
  also have "\<dots> = unat w" by (simp only: t base256_digits)
  finally show ?thesis .
qed

lemma read_Uint32Array_buffer:
  "n < 4294967296 \<Longrightarrow> read_uint32 en (Uint32Array_buffer en n) = n"
proof (cases en)
  case LittleEndian
  assume "n < 4294967296"
  then show ?thesis
    using read_uint32_le[of "word_of_nat n"] LittleEndian
    by (simp add: Uint32Array_buffer_def unat_word32_of_nat)
next
  case BigEndian
  assume "n < 4294967296"
  then show ?thesis
    using read_uint32_le[of "word_of_nat n"] BigEndian
    by (simp add: Uint32Array_buffer_def unat_word32_of_nat read_uint32_def uint32_le_def)
qed

lemma length_Uint32Array_buffer: "length (Uint32Array_buffer en n) = 4"
  by (cases en) (simp_all add: Uint32Array_buffer_def uint32_le_def)

section \<open>The requests of an upload\<close>

lemma upload_parts_indexed:
  assumes "\<And>i. i < length ps \<Longrightarrow> \<forall>ev\<in>set (fst (g (n + i) (part_hash en (ps ! i)))). P ev"
    and "\<And>k url. P (PutPart k url)"
  shows "\<forall>ev\<in>set (fst (upload_parts en g n ps)). P ev"
  using assms(1)
proof (induction ps arbitrary: n)
  case Nil
  then show ?case by (simp add: returns_def)
next
  case (Cons p ps)
  have first: "\<forall>ev\<in>set (fst (g n (part_hash en p))). P ev"
    using Cons.prems[of 0] by simp
  have rest: "\<forall>ev\<in>set (fst (upload_parts en g (Suc n) ps)). P ev"
  proof (rule Cons.IH)
    fix i assume "i < length ps"
    then show "\<forall>ev\<in>set (fst (g (Suc n + i) (part_hash en (ps ! i)))). P ev"
      using Cons.prems[of "Suc i"] by simp
  qed
  show ?case
    unfolding upload_parts.simps
    apply (rule seq_all)
     apply (rule first)
    apply (rule seq_all)
     apply (simp add: await_def assms(2))
    apply (rule seq_all)
     apply (rule rest)
    apply (simp add: returns_def)
    done
qed

lemma uploadToS3_requests:
  "\<forall>ev\<in>set (fst (uploadToS3 en stream (generateBackupUrl en config bk))).
     (\<exists>m d. ev = Log Debug m d)
     \<or> (\<exists>n url. ev = PutPart n url)
     \<or> (\<exists>n. 1 \<le> n \<and> n \<le> length (split_parts en stream)
           \<and> ev = (if subscriptionType config = premium
                    then GetUploadPartUrl bk n (agentId config)
                           (part_hash en (split_parts en stream ! (n - 1)))
                    else GetUploadPartUrlFromLocalCredentials (filename bk) (s3uploadId bk) n
                           (part_hash en (split_parts en stream ! (n - 1)))))"
  (is "\<forall>ev\<in>_. ?Q ev")
  unfolding uploadToS3_def
proof (rule upload_parts_indexed)
  fix i assume i: "i < length (split_parts en stream)"
  let ?ev = "if subscriptionType config = premium
         then GetUploadPartUrl bk (1 + i) (agentId config) (part_hash en (split_parts en stream ! i))
         else GetUploadPartUrlFromLocalCredentials (filename bk) (s3uploadId bk) (1 + i)
                (part_hash en (split_parts en stream ! i))"
  have "\<exists>n. 1 \<le> n \<and> n \<le> length (split_parts en stream)
           \<and> ?ev = (if subscriptionType config = premium
                    then GetUploadPartUrl bk n (agentId config)
                           (part_hash en (split_parts en stream ! (n - 1)))
                    else GetUploadPartUrlFromLocalCredentials (filename bk) (s3uploadId bk) n
                           (part_hash en (split_parts en stream ! (n - 1))))"
    using i by (intro exI[of _ "1 + i"]) simp
  then have q: "?Q ?ev" by blast
  show "\<forall>ev\<in>set (fst (generateBackupUrl en config bk (1 + i)
                 (part_hash en (split_parts en stream ! i)))). ?Q ev"
  proof
    fix ev
    assume "ev \<in> set (fst (generateBackupUrl en config bk (1 + i)
                 (part_hash en (split_parts en stream ! i))))"
    then consider "\<exists>m d. ev = Log Debug m d" | "ev = ?ev"
      unfolding generateBackupUrl_events by auto
    then show "?Q ev"
    proof cases
      case 1
      then show ?thesis by blast
    next
      case 2
      with q show ?thesis by simp
    qed
  qed
next
  fix k url
  show "?Q (PutPart k url)" by simp
qed

lemma pipe_events_kinds:
  "ev \<in> set (pipe_events header bs) \<Longrightarrow> (\<exists>b. ev = StreamWrite b) \<or> (\<exists>b. ev = HashUpdate b)"
  by (auto simp: pipe_events_def)

lemma catch_block_kinds:
  "ev \<in> set (catch_block rt (JObj e)) \<Longrightarrow> (\<exists>l m d. ev = Log l m d) \<or> (\<exists>m. ev = ProcessSend m)"
  by (auto simp: catch_block_object)

lemma neutral_kinds:
  "(\<exists>b. ev = StreamWrite b) \<or> (\<exists>b. ev = HashUpdate b) \<or> (\<exists>l m d. ev = Log l m d)
     \<or> (\<exists>m. ev = ProcessSend m) \<or> (\<exists>n url. ev = PutPart n url)
   \<Longrightarrow> \<not> is_direct ev \<and> \<not> is_delegated ev"
  by (auto simp: is_direct_def is_delegated_def)

text \<open>
  Every event of a run is either of no strategy, or the opening of a session in the free
  tier, or a URL request or a finalization of the tier's kind.
\<close>

lemma run_events:
  assumes "ev \<in> set (backupDatabase rt en config info)"
  shows "(\<not> is_direct ev \<and> \<not> is_delegated ev)
       \<or> (subscriptionType config = free
            \<and> ev = InitMultipartUpload (backup_filename (dbName config) (utc_now en)))
       \<or> (\<exists>k ek bs iv bk pe.
              createBackupKey en (publicKey config) = Inr (k, ek)
            \<and> startDumper en k config = Inr (bs, iv)
            \<and> snd (open_session en config (initial_backup info)) = Inr bk
            \<and> ((\<exists>n. 1 \<le> n
                   \<and> n \<le> length (split_parts en (concat (header_writes rt (VERSION en) ek iv @ bs)))
                   \<and> ev = (if subscriptionType config = premium
                       then GetUploadPartUrl bk n (agentId config)
                              (part_hash en (split_parts en
                                 (concat (header_writes rt (VERSION en) ek iv @ bs)) ! (n - 1)))
                       else GetUploadPartUrlFromLocalCredentials (filename bk) (s3uploadId bk) n
                              (part_hash en (split_parts en
                                 (concat (header_writes rt (VERSION en) ek iv @ bs)) ! (n - 1)))))
               \<or> ev = (if subscriptionType config = premium
                       then FinishUpload bk pe
                              (hex (md5 rt (concat (header_writes rt (VERSION en) ek iv @ bs))))
                              (agentId config) (publicKey config)
                       else CompleteMultipartUpload (filename bk) (s3uploadId bk) pe)))"
    (is "?neutral \<or> ?session \<or> ?tier")
proof (cases rule: run_cases[where rt=rt and en=en and config=config and info=info])
  case (early evs e)
  with assms have "ev \<in> set evs \<or> ev \<in> set (catch_block rt (JObj e))" by simp
  then have ?neutral
    using early(2) catch_block_kinds[of ev rt e] by (auto simp: is_direct_def is_delegated_def)
  then show ?thesis ..
next
  case (no_session k ek bs iv e)
  let ?d = "pipe_events (header_writes rt (VERSION en) ek iv) bs"
  from assms[unfolded no_session(6)]
  consider "ev \<in> set [CheckDbDumpProgram (dbType config) (dumpProgramsDirectory config),
          CreateBackupKey (publicKey config), StartDumper k,
          Log Debug ''Creating backup file stream PassThrough'' None]"
    | "ev \<in> set (map StreamWrite (header_writes rt (VERSION en) ek iv))"
    | "ev = InitMultipartUpload (backup_filename (dbName config) (utc_now en))"
    | "ev \<in> set ?d"
    | "ev \<in> set (catch_block rt (JObj e))"
    by (auto dest: in_set_takeD in_set_dropD)
  then show ?thesis
  proof cases
    case 1
    then have ?neutral by (auto simp: is_direct_def is_delegated_def)
    then show ?thesis ..
  next
    case 2
    then have ?neutral by (auto simp: is_direct_def is_delegated_def)
    then show ?thesis ..
  next
    case 3
    with no_session(4) have ?session by simp
    then show ?thesis by (intro disjI2 disjI1)
  next
    case 4
    from pipe_events_kinds[OF 4] have ?neutral by (intro neutral_kinds) blast
    then show ?thesis ..
  next
    case 5
    from catch_block_kinds[OF 5] have ?neutral by (intro neutral_kinds) blast
    then show ?thesis ..
  qed
next
  case (upload_failed k ek bs iv bk e)
  let ?s = "concat (header_writes rt (VERSION en) ek iv @ bs)"
  from assms[unfolded upload_failed(6)]
  consider "ev \<in> set [CheckDbDumpProgram (dbType config) (dumpProgramsDirectory config),
          CreateBackupKey (publicKey config), StartDumper k,
          Log Debug ''Creating backup file stream PassThrough'' None]"
    | "ev \<in> set (map StreamWrite (header_writes rt (VERSION en) ek iv))"
    | "ev \<in> set (fst (open_session en config (initial_backup info)))"
    | "ev \<in> set (pipe_events (header_writes rt (VERSION en) ek iv) bs)"
    | "ev \<in> set (fst (uploadToS3 en ?s (generateBackupUrl en config bk)))"
    | "ev \<in> set (catch_block rt (JObj e))"
    by auto
  then show ?thesis
  proof cases
    case 1
    then have ?neutral by (auto simp: is_direct_def is_delegated_def)
    then show ?thesis ..
  next
    case 2
    then have ?neutral by (auto simp: is_direct_def is_delegated_def)
    then show ?thesis ..
  next
    case 3
    then have ?session by (auto simp: open_session_events split: if_splits)
    then show ?thesis by (intro disjI2 disjI1)
  next
    case 4
    from pipe_events_kinds[OF 4] have ?neutral by (intro neutral_kinds) blast
    then show ?thesis ..
  next
    case 5
    from uploadToS3_requests[of en ?s config bk, THEN bspec, OF 5]
    consider "\<exists>m d. ev = Log Debug m d" | "\<exists>n url. ev = PutPart n url"
      | n where "1 \<le> n" "n \<le> length (split_parts en ?s)"
          "ev = (if subscriptionType config = premium
                 then GetUploadPartUrl bk n (agentId config)
                        (part_hash en (split_parts en ?s ! (n - 1)))
                 else GetUploadPartUrlFromLocalCredentials (filename bk) (s3uploadId bk) n
                        (part_hash en (split_parts en ?s ! (n - 1))))"
      by blast
    then show ?thesis
    proof cases
      case 1
      then have ?neutral by (intro neutral_kinds) blast
      then show ?thesis ..
    next
      case 2
      then have ?neutral by (intro neutral_kinds) blast
      then show ?thesis ..
    next
      case 3
      with upload_failed(2,3,4) have ?tier
        by (intro exI[of _ k] exI[of _ ek] exI[of _ bs] exI[of _ iv] exI[of _ bk] exI[of _ "[]"])
          blast
      then show ?thesis by (intro disjI2)
    qed
  next
    case 6
    from catch_block_kinds[OF 6] have ?neutral by (intro neutral_kinds) blast
    then show ?thesis ..
  qed
next
  case (finalized k ek bs iv bk pe)
  let ?s = "concat (header_writes rt (VERSION en) ek iv @ bs)"
  let ?fin = "if subscriptionType config = premium
            then FinishUpload bk pe (hex (md5 rt ?s)) (agentId config) (publicKey config)
            else CompleteMultipartUpload (filename bk) (s3uploadId bk) pe"
  from assms[unfolded finalized(6)]
  consider "ev \<in> set [CheckDbDumpProgram (dbType config) (dumpProgramsDirectory config),
          CreateBackupKey (publicKey config), StartDumper k,
          Log Debug ''Creating backup file stream PassThrough'' None,
          Log Info ''Informing server the upload is finished'' None, HashEnd,
          Log Info ''backup finished !'' None, ProcessExit 0]"
    | "ev \<in> set (map StreamWrite (header_writes rt (VERSION en) ek iv))"
    | "ev \<in> set (fst (open_session en config (initial_backup info)))"
    | "ev \<in> set (pipe_events (header_writes rt (VERSION en) ek iv) bs)"
    | "ev \<in> set (fst (uploadToS3 en ?s (generateBackupUrl en config bk)))"
    | "ev = ?fin"
    | e where "ev \<in> set (catch_block rt (JObj e))"
    by (auto split: sum.splits)
  then show ?thesis
  proof cases
    case 1
    then have ?neutral by (auto simp: is_direct_def is_delegated_def)
    then show ?thesis ..
  next
    case 2
    then have ?neutral by (auto simp: is_direct_def is_delegated_def)
    then show ?thesis ..
  next
    case 3
    then have ?session by (auto simp: open_session_events split: if_splits)
    then show ?thesis by (intro disjI2 disjI1)
  next
    case 4
    from pipe_events_kinds[OF 4] have ?neutral by (intro neutral_kinds) blast
    then show ?thesis ..
  next
    case 5
    from uploadToS3_requests[of en ?s config bk, THEN bspec, OF 5]
    consider "\<exists>m d. ev = Log Debug m d" | "\<exists>n url. ev = PutPart n url"
      | n where "1 \<le> n" "n \<le> length (split_parts en ?s)"
          "ev = (if subscriptionType config = premium
                 then GetUploadPartUrl bk n (agentId config)
                        (part_hash en (split_parts en ?s ! (n - 1)))
                 else GetUploadPartUrlFromLocalCredentials (filename bk) (s3uploadId bk) n
                        (part_hash en (split_parts en ?s ! (n - 1))))"
      by blast
    then show ?thesis
    proof cases
      case 1
      then have ?neutral by (intro neutral_kinds) blast
      then show ?thesis ..
    next
      case 2
      then have ?neutral by (intro neutral_kinds) blast
      then show ?thesis ..
    next
      case 3
      with finalized(2,3,4) have ?tier
        by (intro exI[of _ k] exI[of _ ek] exI[of _ bs] exI[of _ iv] exI[of _ bk] exI[of _ pe])
          blast
      then show ?thesis by (intro disjI2)
    qed
  next
    case 6
    with finalized(2,3,4) have ?tier
      by (intro exI[of _ k] exI[of _ ek] exI[of _ bs] exI[of _ iv] exI[of _ bk] exI[of _ pe])
        blast
    then show ?thesis by (intro disjI2)
  next
    case 7
    from catch_block_kinds[OF 7] have ?neutral by (intro neutral_kinds) blast
    then show ?thesis ..
  qed
qed

lemma local_request:
  assumes "subscriptionType config = free"
    and "GetUploadPartUrlFromLocalCredentials f u n h \<in> set (backupDatabase rt en config info)"
  shows "f = Some (backup_filename (dbName config) (utc_now en))
       \<and> (\<exists>uploadId.
             initMultipartUpload en (backup_filename (dbName config) (utc_now en)) config
               = Inr uploadId
           \<and> u = Some uploadId)
       \<and> (\<exists>k ek bs iv.
             createBackupKey en (publicKey config) = Inr (k, ek)
           \<and> startDumper en k config = Inr (bs, iv)
           \<and> 1 \<le> n
           \<and> n \<le> length (split_parts en (concat (header_writes rt (VERSION en) ek iv @ bs)))
           \<and> h = part_hash en
                   (split_parts en (concat (header_writes rt (VERSION en) ek iv @ bs))
                      ! (n - 1)))"
proof -
  let ?name = "backup_filename (dbName config) (utc_now en)"
  have d: "is_direct (GetUploadPartUrlFromLocalCredentials f u n h)"
    by (simp add: is_direct_def)
  from run_events[OF assms(2)] d assms(1) obtain k ek bs iv bk m where
    t: "createBackupKey en (publicKey config) = Inr (k, ek)"
      "startDumper en k config = Inr (bs, iv)"
      "snd (open_session en config (initial_backup info)) = Inr bk"
      "1 \<le> m"
      "m \<le> length (split_parts en (concat (header_writes rt (VERSION en) ek iv @ bs)))"
      "GetUploadPartUrlFromLocalCredentials f u n h
         = GetUploadPartUrlFromLocalCredentials (filename bk) (s3uploadId bk) m
             (part_hash en (split_parts en
                (concat (header_writes rt (VERSION en) ek iv @ bs)) ! (m - 1)))"
    by auto
  from open_session_free[OF t(3) assms(1)] obtain uploadId where
    u: "initMultipartUpload en ?name config = Inr uploadId"
    and bk: "filename bk = Some ?name" "s3uploadId bk = Some uploadId"
    by auto
  from t(6) have e: "f = filename bk" "u = s3uploadId bk" "n = m"
    "h = part_hash en (split_parts en
                (concat (header_writes rt (VERSION en) ek iv @ bs)) ! (m - 1))"
    by simp_all
  have 1: "f = Some ?name" using e(1) bk(1) by simp
  have 2: "\<exists>uploadId. initMultipartUpload en ?name config = Inr uploadId \<and> u = Some uploadId"
    using u e(2) bk(2) by simp
  have 3: "\<exists>k ek bs iv.
             createBackupKey en (publicKey config) = Inr (k, ek)
           \<and> startDumper en k config = Inr (bs, iv)
           \<and> 1 \<le> n
           \<and> n \<le> length (split_parts en (concat (header_writes rt (VERSION en) ek iv @ bs)))
           \<and> h = part_hash en
                   (split_parts en (concat (header_writes rt (VERSION en) ek iv @ bs))
                      ! (n - 1))"
    using t(1,2,4,5) e(3,4)
    by (intro exI[of _ k] exI[of _ ek] exI[of _ bs] exI[of _ iv]) simp
  from 1 2 3 show ?thesis by (intro conjI)
qed

lemma remote_request:
  assumes "subscriptionType config = premium"
    and "GetUploadPartUrl bk n a h \<in> set (backupDatabase rt en config info)"
  shows "bk = initial_backup info \<and> a = agentId config
       \<and> (\<exists>k ek bs iv.
             createBackupKey en (publicKey config) = Inr (k, ek)
           \<and> startDumper en k config = Inr (bs, iv)
           \<and> 1 \<le> n
           \<and> n \<le> length (split_parts en (concat (header_writes rt (VERSION en) ek iv @ bs)))
           \<and> h = part_hash en
                   (split_parts en (concat (header_writes rt (VERSION en) ek iv @ bs))
                      ! (n - 1)))"
proof -
  have d: "is_delegated (GetUploadPartUrl bk n a h)"
    by (simp add: is_delegated_def)
  from run_events[OF assms(2)] d assms(1) obtain k ek bs iv bk' m where
    t: "createBackupKey en (publicKey config) = Inr (k, ek)"
      "startDumper en k config = Inr (bs, iv)"
      "snd (open_session en config (initial_backup info)) = Inr bk'"
      "1 \<le> m"
      "m \<le> length (split_parts en (concat (header_writes rt (VERSION en) ek iv @ bs)))"
      "GetUploadPartUrl bk n a h
         = GetUploadPartUrl bk' m (agentId config)
             (part_hash en (split_parts en
                (concat (header_writes rt (VERSION en) ek iv @ bs)) ! (m - 1)))"
    by auto
  from open_session_premium[OF t(3) assms(1)] have bk': "bk' = initial_backup info" .
  from t(6) have e: "bk = bk'" "a = agentId config" "n = m"
    "h = part_hash en (split_parts en
                (concat (header_writes rt (VERSION en) ek iv @ bs)) ! (m - 1))"
    by simp_all
  have 3: "\<exists>k ek bs iv.
             createBackupKey en (publicKey config) = Inr (k, ek)
           \<and> startDumper en k config = Inr (bs, iv)
           \<and> 1 \<le> n
           \<and> n \<le> length (split_parts en (concat (header_writes rt (VERSION en) ek iv @ bs)))
           \<and> h = part_hash en
                   (split_parts en (concat (header_writes rt (VERSION en) ek iv @ bs))
                      ! (n - 1))"
    using t(1,2,4,5) e(3,4)
    by (intro exI[of _ k] exI[of _ ek] exI[of _ bs] exI[of _ iv]) simp
  from e(1,2) bk' 3 show ?thesis by (intro conjI) simp_all
qed

lemma tier_events:
  assumes "ev \<in> set (backupDatabase rt en config info)"
  shows "subscriptionType config = free \<Longrightarrow> \<not> is_delegated ev"
    and "subscriptionType config = premium \<Longrightarrow> \<not> is_direct ev"
    and "ev = InitMultipartUpload name \<Longrightarrow> name = backup_filename (dbName config) (utc_now en)"
  using run_events[OF assms]
  by (auto simp: is_direct_def is_delegated_def split: if_splits)

lemma session_opened:
  assumes "subscriptionType config = free"
    and "checkDbDumpProgram en (dbType config) (dumpProgramsDirectory config) = Inr ()"
    and "createBackupKey en (publicKey config) = Inr (k, ek)"
    and "startDumper en k config = Inr (bs, iv)"
  shows "InitMultipartUpload (backup_filename (dbName config) (utc_now en))
            \<in> set (backupDatabase rt en config info)"
proof (cases rule: run_cases[where rt=rt and en=en and config=config and info=info])
  case (early evs e)
  with assms show ?thesis by blast
next
  case (no_session k ek bs iv e)
  then show ?thesis by simp
next
  case (upload_failed k ek bs iv bk e)
  with assms(1) show ?thesis by (simp add: open_session_events)
next
  case (finalized k ek bs iv bk pe)
  with assms(1) show ?thesis by (simp add: open_session_events)
qed

text \<open>The digest handed to \<^verbatim>\<open>finishUpload\<close> is that of the bytes written to the stream.\<close>

lemma finish_hash:
  assumes "FinishUpload b p h a k \<in> set (backupDatabase rt en config info)"
  shows "h = hex (md5 rt (concat (stream_written (backupDatabase rt en config info))))"
proof -
  from assms obtain pre post where
    tr: "backupDatabase rt en config info = pre @ FinishUpload b p h a k # post"
    by (auto dest: split_list)
  have f: "is_finalization (FinishUpload b p h a k)" by (simp add: is_finalization_def)
  from tr f obtain k' ek bs iv bk pe where
    w: "stream_written pre = header_writes rt (VERSION en) ek iv @ bs"
    and p: "stream_written post = []"
    and ev: "FinishUpload b p h a k = (if subscriptionType config = premium
           then FinishUpload bk pe
                  (hex (md5 rt (concat (header_writes rt (VERSION en) ek iv @ bs))))
                  (agentId config) (publicKey config)
           else CompleteMultipartUpload (filename bk) (s3uploadId bk) pe)"
    by (rule finalization_split)
  from ev have "h = hex (md5 rt (concat (header_writes rt (VERSION en) ek iv @ bs)))"
    by (simp split: if_splits)
  moreover have "stream_written (backupDatabase rt en config info)
                   = header_writes rt (VERSION en) ek iv @ bs"
    by (simp add: tr stream_written_append stream_written_Cons w p)
  ultimately show ?thesis by simp
qed

text \<open>
  A run of the worker ends in exactly one outcome when no exception escapes, and when one
  escapes before the job has signalled anything and the uncaughtException handler does not
  itself throw.
\<close>

lemma worker_run_one_outcome:
  assumes "fault = None
         \<or> (\<exists>k e p. fault = Some (k, e) \<and> uncaught_payload rt e = Inr p
               \<and> (\<forall>ev\<in>set (take k (backupDatabase rt en config info)). \<not> is_terminal ev))"
  shows "(clean_exit (worker_run rt en config info fault)
            \<and> sent (worker_run rt en config info fault) = [])
       \<or> (\<not> clean_exit (worker_run rt en config info fault)
            \<and> length (sent (worker_run rt en config info fault)) = 1)"
proof (cases "\<exists>k e. fault = Some (k, e) \<and> k < length (backupDatabase rt en config info)")
  case False
  then have "worker_run rt en config info fault = backupDatabase rt en config info"
    by (auto simp: worker_run_def Let_def split: option.splits)
  then show ?thesis using backupDatabase_one_outcome[of rt en config info] by simp
next
  case True
  then obtain k e where f: "fault = Some (k, e)"
    and k: "k < length (backupDatabase rt en config info)" by blast
  from assms f obtain p where p: "uncaught_payload rt e = Inr p"
    and t: "\<forall>ev\<in>set (take k (backupDatabase rt en config info)). \<not> is_terminal ev"
    by auto
  have w: "worker_run rt en config info fault =
             take k (backupDatabase rt en config info)
               @ [ConsoleError e, ProcessSend (error_message rt p), ProcessExit 1]"
    using f k p by (simp add: worker_run_def Let_def on_uncaughtException_def)
  show ?thesis
    using sent_quiet[OF t] clean_exit_quiet[OF t]
    by (simp add: w sent_append clean_exit_append) (simp add: sent_def clean_exit_def)
qed

section \<open>The failure path\<close>

lemma exits_quiet: "\<forall>ev\<in>set evs. \<not> is_terminal ev \<Longrightarrow> exits evs = []"
  by (induction evs) (auto simp: exits_def is_terminal_def split: event.splits)

lemma exits_append: "exits (xs @ ys) = exits xs @ exits ys"
  by (simp add: exits_def)

text \<open>
  What the \<^verbatim>\<open>catch\<close> block does for an error thrown by a step of the \<^verbatim>\<open>try\<close> block: one
  message goes to the controller, carrying the detail of the error passed through
  \<^verbatim>\<open>JSON.stringify\<close>, a newline and the stack trace. The process is not ended on this
  path, by no exit code.
\<close>

lemma caught_error_sent:
  assumes "snd (try_block rt en config info) = Inl (e, late)"
  shows "sent (backupDatabase rt en config info) =
           [JSON_stringify rt (JObj
              [(''type'', JStr ''error''),
               (''payload'', JStr (template rt (JSON_stringify rt (claimed_detail e))
                   @ [CHR 0x0A] @ template rt (property e ''stack'')))])]"
    and "exits (backupDatabase rt en config info) = []"
proof -
  from try_block_outcome[of rt en config info] assms
  have q: "\<forall>ev\<in>set (fst (try_block rt en config info)). \<not> is_terminal ev"
    and l: "\<forall>ev\<in>set late. \<not> is_terminal ev"
    by auto
  have b: "backupDatabase rt en config info
             = fst (try_block rt en config info) @ catch_block rt (JObj e) @ late"
    using assms by (simp add: backupDatabase_eq)
  show "sent (backupDatabase rt en config info) =
           [JSON_stringify rt (JObj
              [(''type'', JStr ''error''),
               (''payload'', JStr (template rt (JSON_stringify rt (claimed_detail e))
                   @ [CHR 0x0A] @ template rt (property e ''stack'')))])]"
    using sent_quiet[OF q] sent_quiet[OF l]
    by (simp add: b catch_block_object sent_append error_message_def) (simp add: sent_def)
  show "exits (backupDatabase rt en config info) = []"
    using exits_quiet[OF q] exits_quiet[OF l]
    by (simp add: b catch_block_object exits_append) (simp add: exits_def)
qed

text \<open>
  A run of the free tier in which \<^verbatim>\<open>initMultipartUpload\<close> rejects. The pipes were set up
  before the call: three deliveries are made while it is pending, and the others after the
  message has gone to the controller.
\<close>

lemma rejected_session_run:
  "backupDatabase toy_runtime
     (toy_env\<lparr>initMultipartUpload :=
        (\<lambda>name c. Inl [(''code'', JStr ''NetworkingError''), (''stack'', JStr ''trace'')])\<rparr>)
     (toy_config\<lparr>subscriptionType := free\<rparr>) \<lparr>backup = None\<rparr>
   = [CheckDbDumpProgram pg ''/tmp'', CreateBackupKey ''PK'', StartDumper [1, 2],
      Log Debug ''Creating backup file stream PassThrough'' None,
      StreamWrite [68, 66, 65, 67, 75, 69, 68], StreamWrite [0, 0, 1],
      StreamWrite [3, 0, 0, 0], StreamWrite [9, 9, 9], StreamWrite [7, 7],
      InitMultipartUpload ''backup_mydb_040720180905'',
      HashUpdate [68, 66, 65, 67, 75, 69, 68], HashUpdate [0, 0, 1], HashUpdate [3, 0, 0, 0],
      Log Error ''Unknown error while creating backup''
        (Some (JObj [(''error'', JStr ''NetworkingError'')])),
      ProcessSend (JObj [(''type'', JStr ''error''),
                         (''payload'', JStr (''NetworkingError'' @ [CHR 0x0A] @ ''trace''))]),
      HashUpdate [9, 9, 9], HashUpdate [7, 7],
      StreamWrite [10, 11], HashUpdate [10, 11], StreamWrite [12], HashUpdate [12]]"
  by code_simp

section \<open>Claims\<close>

text \<open>
  C1. The claim is that a run of the worker ends in exactly one terminal outcome, a clean
  exit without an error message or one error message. The run below does neither: the dump
  has started when an error object with a \<^verbatim>\<open>response\<close> and no \<^verbatim>\<open>code\<close> escapes to the
  uncaughtException handler, which throws on \<^verbatim>\<open>error.responserror.data\<close> before it sends
  anything; no message reaches the controller and the process does not exit with 0.
\<close>

theorem uncaught_response_error_no_outcome:
  "worker_run toy_runtime toy_env toy_config \<lparr>backup = None\<rparr>
     (Some (3, JObj [(''response'', JObj [(''data'', JStr ''Forbidden'')]),
                     (''message'', JStr ''Request failed''), (''stack'', JStr ''trace'')]))
   = [CheckDbDumpProgram pg ''/tmp'', CreateBackupKey ''PK'', StartDumper [1, 2],
      ConsoleError (JObj [(''response'', JObj [(''data'', JStr ''Forbidden'')]),
                          (''message'', JStr ''Request failed''), (''stack'', JStr ''trace'')]),
      Throws [(''name'', JStr ''TypeError''),
              (''message'', JStr ''Cannot read property data of undefined'')]]
   \<and> sent (worker_run toy_runtime toy_env toy_config \<lparr>backup = None\<rparr>
        (Some (3, JObj [(''response'', JObj [(''data'', JStr ''Forbidden'')]),
                        (''message'', JStr ''Request failed''), (''stack'', JStr ''trace'')]))) = []
   \<and> clean_exit (worker_run toy_runtime toy_env toy_config \<lparr>backup = None\<rparr>
        (Some (3, JObj [(''response'', JObj [(''data'', JStr ''Forbidden'')]),
                        (''message'', JStr ''Request failed''), (''stack'', JStr ''trace'')]))) = False"
  by code_simp

text \<open>
  C2. Once the dump has started, what the run writes to \<^verbatim>\<open>backupFileStream\<close> begins with
  five writes, in this order: the seven bytes of \<^verbatim>\<open>DBACKED\<close>, the version bytes, the four
  bytes of the length of the wrapped key (which read back as that length, a buffer being
  shorter than \<open>2 ^ 32\<close> bytes), the wrapped key itself, the IV. Whatever is
  written after them is the ciphertext delivered by the dump stream (all of it, or nothing
  when the run fails before the data moves), so every header byte precedes every
  ciphertext byte.
\<close>

theorem header_before_ciphertext:
  assumes "checkDbDumpProgram en (dbType config) (dumpProgramsDirectory config) = Inr ()"
    and "createBackupKey en (publicKey config) = Inr (k, ek)"
    and "startDumper en k config = Inr (bs, iv)"
  shows "(\<exists>rest. stream_written (backupDatabase rt en config info) =
            [Buffer_from_string ''DBACKED'', Buffer_from_array (VERSION en),
             Uint32Array_buffer (host_endianness rt) (length ek), ek, iv] @ rest
            \<and> (rest = [] \<or> rest = bs))
         \<and> Buffer_from_string ''DBACKED'' = [0x44, 0x42, 0x41, 0x43, 0x4B, 0x45, 0x44]
         \<and> length (Uint32Array_buffer (host_endianness rt) (length ek)) = 4
         \<and> (length ek < 2 ^ 32 \<longrightarrow>
               read_uint32 (host_endianness rt)
                 (Uint32Array_buffer (host_endianness rt) (length ek)) = length ek)"
proof -
  have len: "length (Uint32Array_buffer (host_endianness rt) (length ek)) = 4"
    by (cases "host_endianness rt") (simp_all add: Uint32Array_buffer_def uint32_le_def)
  have magic: "Buffer_from_string ''DBACKED'' = [0x44, 0x42, 0x41, 0x43, 0x4B, 0x45, 0x44]"
    by (simp add: Buffer_from_string_def)
  have "\<exists>rest. stream_written (backupDatabase rt en config info) =
            header_writes rt (VERSION en) ek iv @ rest \<and> (rest = [] \<or> rest = bs)"
  proof (cases rule: run_cases[where rt=rt and en=en and config=config and info=info])
    case (early evs e)
    with assms show ?thesis by blast
  next
    case (no_session k' ek' bs' iv' e)
    with assms have "k' = k" "ek' = ek" "bs' = bs" "iv' = iv" by simp_all
    with no_session(6) show ?thesis
      by (simp add: stream_written_append stream_written_header catch_block_silent
          stream_written_Cons stream_written_Nil stream_written_take_drop
          stream_written_pipe)
  next
    case (upload_failed k' ek' bs' iv' bk e)
    with assms have "k' = k" "ek' = ek" "bs' = bs" "iv' = iv" by simp_all
    with upload_failed(6) show ?thesis
      by (simp add: stream_written_append stream_written_header catch_block_silent
          open_session_silent stream_written_pipe uploadToS3_silent
          stream_written_Cons stream_written_Nil)
  next
    case (finalized k' ek' bs' iv' bk pe)
    with assms have "k' = k" "ek' = ek" "bs' = bs" "iv' = iv" by simp_all
    with finalized(6) show ?thesis
      by (auto simp add: stream_written_append stream_written_header catch_block_silent
          open_session_silent stream_written_pipe uploadToS3_silent
          stream_written_Cons stream_written_Nil split: sum.splits)
  qed
  moreover have "length ek < 2 ^ 32 \<longrightarrow>
               read_uint32 (host_endianness rt)
                 (Uint32Array_buffer (host_endianness rt) (length ek)) = length ek"
    by (simp add: read_Uint32Array_buffer)
  ultimately show ?thesis using len magic by (simp add: header_writes_def)
qed

theorem header_before_ciphertext_witness:
  "checkDbDumpProgram toy_env (dbType toy_config) (dumpProgramsDirectory toy_config) = Inr ()
   \<and> createBackupKey toy_env (publicKey toy_config) = Inr ([1, 2], [9, 9, 9])
   \<and> startDumper toy_env [1, 2] toy_config = Inr ([[10, 11], [12]], [7, 7])
   \<and> (\<exists>rest. stream_written (backupDatabase toy_runtime toy_env toy_config \<lparr>backup = None\<rparr>) =
          [[0x44, 0x42, 0x41, 0x43, 0x4B, 0x45, 0x44], [0, 0, 1], [3, 0, 0, 0], [9, 9, 9], [7, 7]]
            @ rest
          \<and> (rest = [] \<or> rest = [[10, 11], [12]]))
   \<and> length [9, 9, 9 :: 8 word] < 2 ^ 32
   \<and> read_uint32 (host_endianness toy_runtime) [3, 0, 0, 0] = 3"
proof -
  have a: "checkDbDumpProgram toy_env (dbType toy_config) (dumpProgramsDirectory toy_config) = Inr ()"
    by (simp add: toy_env_def)
  have b: "createBackupKey toy_env (publicKey toy_config) = Inr ([1, 2], [9, 9, 9])"
    by (simp add: toy_env_def)
  have c: "startDumper toy_env [1, 2] toy_config = Inr ([[10, 11], [12]], [7, 7])"
    by (simp add: toy_env_def)
  have v: "Buffer_from_array (VERSION toy_env) = [0, 0, 1]"
    by (simp add: toy_env_def Buffer_from_array_def)
  show ?thesis
    using a b c header_before_ciphertext[OF a b c, of toy_runtime "\<lparr>backup = None\<rparr>"]
    by (simp add: v toy_runtime_def Uint32Array_buffer_def uint32_le_def Buffer_from_string_def)
qed

text \<open>
  C3. Wherever a finalization call (\<^verbatim>\<open>finishUpload\<close> or \<^verbatim>\<open>completeMultipartUpload\<close>)
  occurs in a run, the hash has by then consumed exactly the bytes of the envelope, header
  included, its \<^verbatim>\<open>end()\<close> has been called, and it consumes nothing afterwards. In the
  premium tier the call is \<^verbatim>\<open>finishUpload\<close> with the seeded backup record, the list of
  (part number, ETag) pairs returned by the uploader, numbered 1, 2, ... in order, the hex
  MD5 digest of the envelope bytes, the agent identifier and the public key of the
  configuration.
\<close>

theorem finalization_after_hash:
  assumes "backupDatabase rt en config info = pre @ ev # post" and "is_finalization ev"
  shows "\<exists>k ek bs iv pe.
           createBackupKey en (publicKey config) = Inr (k, ek)
         \<and> startDumper en k config = Inr (bs, iv)
         \<and> concat (hashed pre) = concat (header_writes rt (VERSION en) ek iv) @ concat bs
         \<and> concat (stream_written pre) = concat (header_writes rt (VERSION en) ek iv) @ concat bs
         \<and> HashEnd \<in> set pre
         \<and> hashed post = [] \<and> stream_written post = []
         \<and> (subscriptionType config = premium \<longrightarrow>
              ev = FinishUpload (initial_backup info) pe
                     (hex (md5 rt (concat (header_writes rt (VERSION en) ek iv) @ concat bs)))
                     (agentId config) (publicKey config)
              \<and> snd (uploadToS3 en (concat (header_writes rt (VERSION en) ek iv) @ concat bs)
                        (generateBackupUrl en config (initial_backup info))) = Inr pe
              \<and> map fst pe = [1 ..< Suc (length pe)])"
proof -
  from assms obtain k ek bs iv bk pe where
    key: "createBackupKey en (publicKey config) = Inr (k, ek)"
    and dump: "startDumper en k config = Inr (bs, iv)"
    and sess: "snd (open_session en config (initial_backup info)) = Inr bk"
    and up: "snd (uploadToS3 en (concat (header_writes rt (VERSION en) ek iv @ bs))
            (generateBackupUrl en config bk)) = Inr pe"
    and h: "hashed pre = header_writes rt (VERSION en) ek iv @ bs"
    and w: "stream_written pre = header_writes rt (VERSION en) ek iv @ bs"
    and e: "HashEnd \<in> set pre"
    and p: "hashed post = []" "stream_written post = []"
    and ev: "ev = (if subscriptionType config = premium
           then FinishUpload bk pe
                  (hex (md5 rt (concat (header_writes rt (VERSION en) ek iv @ bs))))
                  (agentId config) (publicKey config)
           else CompleteMultipartUpload (filename bk) (s3uploadId bk) pe)"
    by (rule finalization_split)
  let ?h = "header_writes rt (VERSION en) ek iv"
  have f: "subscriptionType config = premium \<longrightarrow>
              ev = FinishUpload (initial_backup info) pe
                     (hex (md5 rt (concat ?h @ concat bs))) (agentId config) (publicKey config)
              \<and> snd (uploadToS3 en (concat ?h @ concat bs)
                        (generateBackupUrl en config (initial_backup info))) = Inr pe
              \<and> map fst pe = [1 ..< Suc (length pe)]"
  proof
    assume pr: "subscriptionType config = premium"
    from open_session_premium[OF sess pr] have bk: "bk = initial_backup info" .
    from up have u: "snd (uploadToS3 en (concat ?h @ concat bs)
                        (generateBackupUrl en config (initial_backup info))) = Inr pe"
      by (simp add: bk)
    from upload_parts_numbers[OF u[unfolded uploadToS3_def]]
    have "map fst pe = [1 ..< Suc (length pe)]"
      by (metis length_map length_upt add_diff_cancel_left' plus_1_eq_Suc)
    with pr bk u show "ev = FinishUpload (initial_backup info) pe
                     (hex (md5 rt (concat ?h @ concat bs))) (agentId config) (publicKey config)
              \<and> snd (uploadToS3 en (concat ?h @ concat bs)
                        (generateBackupUrl en config (initial_backup info))) = Inr pe
              \<and> map fst pe = [1 ..< Suc (length pe)]"
      by (simp add: ev)
  qed
  from key dump h w e p f show ?thesis
    by (intro exI[of _ k] exI[of _ ek] exI[of _ bs] exI[of _ iv] exI[of _ pe]) simp
qed

theorem finalization_after_hash_witness:
  "backupDatabase toy_runtime toy_env toy_config \<lparr>backup = None\<rparr> =
     [CheckDbDumpProgram pg ''/tmp'', CreateBackupKey ''PK'', StartDumper [1, 2],
      Log Debug ''Creating backup file stream PassThrough'' None,
      StreamWrite [68, 66, 65, 67, 75, 69, 68], StreamWrite [0, 0, 1],
      StreamWrite [3, 0, 0, 0], StreamWrite [9, 9, 9], StreamWrite [7, 7],
      HashUpdate [68, 66, 65, 67, 75, 69, 68], HashUpdate [0, 0, 1],
      HashUpdate [3, 0, 0, 0], HashUpdate [9, 9, 9], HashUpdate [7, 7],
      StreamWrite [10, 11], HashUpdate [10, 11], StreamWrite [12], HashUpdate [12],
      Log Debug ''Getting multipart upload URL for part number''
        (Some (JObj [(''partNumber'', JNum 1)])),
      GetUploadPartUrl \<lparr>filename = None, s3uploadId = None, seeded = []\<rparr> 1 ''agent'' ''h'',
      PutPart 1 ''remote'',
      Log Debug ''Getting multipart upload URL for part number''
        (Some (JObj [(''partNumber'', JNum 2)])),
      GetUploadPartUrl \<lparr>filename = None, s3uploadId = None, seeded = []\<rparr> 2 ''agent'' ''h'',
      PutPart 2 ''remote'',
      Log Info ''Informing server the upload is finished'' None, HashEnd]
     @ FinishUpload \<lparr>filename = None, s3uploadId = None, seeded = []\<rparr>
         [(1, ''etag''), (2, ''etag'')] ''16'' ''agent'' ''PK''
     # [Log Info ''backup finished !'' None, ProcessExit 0]
   \<and> is_finalization (FinishUpload \<lparr>filename = None, s3uploadId = None, seeded = []\<rparr>
         [(1, ''etag''), (2, ''etag'')] ''16'' ''agent'' ''PK'')
   \<and> hashed [Log Info ''backup finished !'' None, ProcessExit 0] = []
   \<and> subscriptionType toy_config = premium"
proof -
  have r: "backupDatabase toy_runtime toy_env toy_config \<lparr>backup = None\<rparr> =
     [CheckDbDumpProgram pg ''/tmp'', CreateBackupKey ''PK'', StartDumper [1, 2],
      Log Debug ''Creating backup file stream PassThrough'' None,
      StreamWrite [68, 66, 65, 67, 75, 69, 68], StreamWrite [0, 0, 1],
      StreamWrite [3, 0, 0, 0], StreamWrite [9, 9, 9], StreamWrite [7, 7],
      HashUpdate [68, 66, 65, 67, 75, 69, 68], HashUpdate [0, 0, 1],
      HashUpdate [3, 0, 0, 0], HashUpdate [9, 9, 9], HashUpdate [7, 7],
      StreamWrite [10, 11], HashUpdate [10, 11], StreamWrite [12], HashUpdate [12],
      Log Debug ''Getting multipart upload URL for part number''
        (Some (JObj [(''partNumber'', JNum 1)])),
      GetUploadPartUrl \<lparr>filename = None, s3uploadId = None, seeded = []\<rparr> 1 ''agent'' ''h'',
      PutPart 1 ''remote'',
      Log Debug ''Getting multipart upload URL for part number''
        (Some (JObj [(''partNumber'', JNum 2)])),
      GetUploadPartUrl \<lparr>filename = None, s3uploadId = None, seeded = []\<rparr> 2 ''agent'' ''h'',
      PutPart 2 ''remote'',
      Log Info ''Informing server the upload is finished'' None, HashEnd]
     @ FinishUpload \<lparr>filename = None, s3uploadId = None, seeded = []\<rparr>
         [(1, ''etag''), (2, ''etag'')] ''16'' ''agent'' ''PK''
     # [Log Info ''backup finished !'' None, ProcessExit 0]"
    by code_simp
  have f: "is_finalization (FinishUpload \<lparr>filename = None, s3uploadId = None, seeded = []\<rparr>
         [(1, ''etag''), (2, ''etag'')] ''16'' ''agent'' ''PK'')"
    by (simp add: is_finalization_def)
  have p: "subscriptionType toy_config = premium" by (simp add: toy_config_def)
  show ?thesis
    using r f p finalization_after_hash[OF r f]
    by auto
qed

text \<open>
  C4. The tier of the configuration decides the strategy for the whole run. In the free
  tier no call goes to the remote control plane; the worker opens the multipart session
  itself as soon as the dump has started, under the name
  \<^verbatim>\<open>backup_<dbName>_<ddLLyyyyHHmm>\<close> of the current UTC time, and every part URL comes from
  \<^verbatim>\<open>getUploadPartUrlFromLocalCredentials\<close> with that name, the session identifier, the number
  of the part and the hash of the part. In the premium tier the worker opens no session,
  derives no name and completes no multipart upload; every part URL comes from
  \<^verbatim>\<open>getUploadPartUrl\<close> with the seeded backup record, the number of the part, the hash of
  the part and the agent identifier.
\<close>

theorem strategy_by_tier:
  "(subscriptionType config = free \<longrightarrow>
      (\<forall>ev\<in>set (backupDatabase rt en config info).
          \<not> is_delegated ev
        \<and> (\<forall>name. ev = InitMultipartUpload name \<longrightarrow>
              name = backup_filename (dbName config) (utc_now en))
        \<and> (\<forall>f u n h. ev = GetUploadPartUrlFromLocalCredentials f u n h \<longrightarrow>
              f = Some (backup_filename (dbName config) (utc_now en))
            \<and> (\<exists>uploadId.
                  initMultipartUpload en (backup_filename (dbName config) (utc_now en)) config
                    = Inr uploadId
                \<and> u = Some uploadId)
            \<and> (\<exists>k ek bs iv.
                  createBackupKey en (publicKey config) = Inr (k, ek)
                \<and> startDumper en k config = Inr (bs, iv)
                \<and> 1 \<le> n
                \<and> n \<le> length (split_parts en (concat (header_writes rt (VERSION en) ek iv @ bs)))
                \<and> h = part_hash en
                        (split_parts en (concat (header_writes rt (VERSION en) ek iv @ bs))
                           ! (n - 1))))))
   \<and> (subscriptionType config = premium \<longrightarrow>
      (\<forall>ev\<in>set (backupDatabase rt en config info).
          \<not> is_direct ev
        \<and> (\<forall>bk n a h. ev = GetUploadPartUrl bk n a h \<longrightarrow>
              bk = initial_backup info \<and> a = agentId config
            \<and> (\<exists>k ek bs iv.
                  createBackupKey en (publicKey config) = Inr (k, ek)
                \<and> startDumper en k config = Inr (bs, iv)
                \<and> 1 \<le> n
                \<and> n \<le> length (split_parts en (concat (header_writes rt (VERSION en) ek iv @ bs)))
                \<and> h = part_hash en
                        (split_parts en (concat (header_writes rt (VERSION en) ek iv @ bs))
                           ! (n - 1))))))
   \<and> (subscriptionType config = free
        \<and> checkDbDumpProgram en (dbType config) (dumpProgramsDirectory config) = Inr ()
        \<and> (\<exists>k ek bs iv. createBackupKey en (publicKey config) = Inr (k, ek)
              \<and> startDumper en k config = Inr (bs, iv))
      \<longrightarrow> InitMultipartUpload (backup_filename (dbName config) (utc_now en))
            \<in> set (backupDatabase rt en config info))
   \<and> backup_filename (dbName config) (utc_now en)
       = ''backup_'' @ dbName config @ ''_''
         @ padStart 2 (decimal (day (utc_now en))) @ padStart 2 (decimal (month (utc_now en)))
         @ padStart 4 (decimal (year (utc_now en)))
         @ padStart 2 (decimal (hour (utc_now en))) @ padStart 2 (decimal (minute (utc_now en)))"
proof (intro conjI)
  show "subscriptionType config = free \<longrightarrow>
      (\<forall>ev\<in>set (backupDatabase rt en config info).
          \<not> is_delegated ev
        \<and> (\<forall>name. ev = InitMultipartUpload name \<longrightarrow>
              name = backup_filename (dbName config) (utc_now en))
        \<and> (\<forall>f u n h. ev = GetUploadPartUrlFromLocalCredentials f u n h \<longrightarrow>
              f = Some (backup_filename (dbName config) (utc_now en))
            \<and> (\<exists>uploadId.
                  initMultipartUpload en (backup_filename (dbName config) (utc_now en)) config
                    = Inr uploadId
                \<and> u = Some uploadId)
            \<and> (\<exists>k ek bs iv.
                  createBackupKey en (publicKey config) = Inr (k, ek)
                \<and> startDumper en k config = Inr (bs, iv)
                \<and> 1 \<le> n
                \<and> n \<le> length (split_parts en (concat (header_writes rt (VERSION en) ek iv @ bs)))
                \<and> h = part_hash en
                        (split_parts en (concat (header_writes rt (VERSION en) ek iv @ bs))
                           ! (n - 1)))))"
  proof (intro impI ballI)
    fix ev
    assume fr: "subscriptionType config = free"
      and mem: "ev \<in> set (backupDatabase rt en config info)"
    have 1: "\<not> is_delegated ev" using mem fr by (rule tier_events(1))
    have 2: "\<forall>name. ev = InitMultipartUpload name \<longrightarrow>
              name = backup_filename (dbName config) (utc_now en)"
      using tier_events(3)[OF mem] by blast
    have 3: "\<forall>f u n h. ev = GetUploadPartUrlFromLocalCredentials f u n h \<longrightarrow>
              f = Some (backup_filename (dbName config) (utc_now en))
            \<and> (\<exists>uploadId.
                  initMultipartUpload en (backup_filename (dbName config) (utc_now en)) config
                    = Inr uploadId
                \<and> u = Some uploadId)
            \<and> (\<exists>k ek bs iv.
                  createBackupKey en (publicKey config) = Inr (k, ek)
                \<and> startDumper en k config = Inr (bs, iv)
                \<and> 1 \<le> n
                \<and> n \<le> length (split_parts en (concat (header_writes rt (VERSION en) ek iv @ bs)))
                \<and> h = part_hash en
                        (split_parts en (concat (header_writes rt (VERSION en) ek iv @ bs))
                           ! (n - 1)))"
    proof (intro allI impI)
      fix f u n h
      assume eq: "ev = GetUploadPartUrlFromLocalCredentials f u n h"
      from local_request[OF fr mem[unfolded eq]]
      show "f = Some (backup_filename (dbName config) (utc_now en))
            \<and> (\<exists>uploadId.
                  initMultipartUpload en (backup_filename (dbName config) (utc_now en)) config
                    = Inr uploadId
                \<and> u = Some uploadId)
            \<and> (\<exists>k ek bs iv.
                  createBackupKey en (publicKey config) = Inr (k, ek)
                \<and> startDumper en k config = Inr (bs, iv)
                \<and> 1 \<le> n
                \<and> n \<le> length (split_parts en (concat (header_writes rt (VERSION en) ek iv @ bs)))
                \<and> h = part_hash en
                        (split_parts en (concat (header_writes rt (VERSION en) ek iv @ bs))
                           ! (n - 1)))" .
    qed
    from 1 2 3 show "\<not> is_delegated ev
        \<and> (\<forall>name. ev = InitMultipartUpload name \<longrightarrow>
              name = backup_filename (dbName config) (utc_now en))
        \<and> (\<forall>f u n h. ev = GetUploadPartUrlFromLocalCredentials f u n h \<longrightarrow>
              f = Some (backup_filename (dbName config) (utc_now en))
            \<and> (\<exists>uploadId.
                  initMultipartUpload en (backup_filename (dbName config) (utc_now en)) config
                    = Inr uploadId
                \<and> u = Some uploadId)
            \<and> (\<exists>k ek bs iv.
                  createBackupKey en (publicKey config) = Inr (k, ek)
                \<and> startDumper en k config = Inr (bs, iv)
                \<and> 1 \<le> n
                \<and> n \<le> length (split_parts en (concat (header_writes rt (VERSION en) ek iv @ bs)))
                \<and> h = part_hash en
                        (split_parts en (concat (header_writes rt (VERSION en) ek iv @ bs))
                           ! (n - 1))))"
      by (intro conjI)
  qed
next
  show "subscriptionType config = premium \<longrightarrow>
      (\<forall>ev\<in>set (backupDatabase rt en config info).
          \<not> is_direct ev
        \<and> (\<forall>bk n a h. ev = GetUploadPartUrl bk n a h \<longrightarrow>
              bk = initial_backup info \<and> a = agentId config
            \<and> (\<exists>k ek bs iv.
                  createBackupKey en (publicKey config) = Inr (k, ek)
                \<and> startDumper en k config = Inr (bs, iv)
                \<and> 1 \<le> n
                \<and> n \<le> length (split_parts en (concat (header_writes rt (VERSION en) ek iv @ bs)))
                \<and> h = part_hash en
                        (split_parts en (concat (header_writes rt (VERSION en) ek iv @ bs))
                           ! (n - 1)))))"
  proof (intro impI ballI)
    fix ev
    assume pr: "subscriptionType config = premium"
      and mem: "ev \<in> set (backupDatabase rt en config info)"
    have 1: "\<not> is_direct ev" using mem pr by (rule tier_events(2))
    have 2: "\<forall>bk n a h. ev = GetUploadPartUrl bk n a h \<longrightarrow>
              bk = initial_backup info \<and> a = agentId config
            \<and> (\<exists>k ek bs iv.
                  createBackupKey en (publicKey config) = Inr (k, ek)
                \<and> startDumper en k config = Inr (bs, iv)
                \<and> 1 \<le> n
                \<and> n \<le> length (split_parts en (concat (header_writes rt (VERSION en) ek iv @ bs)))
                \<and> h = part_hash en
                        (split_parts en (concat (header_writes rt (VERSION en) ek iv @ bs))
                           ! (n - 1)))"
    proof (intro allI impI)
      fix bk n a h
      assume eq: "ev = GetUploadPartUrl bk n a h"
      from remote_request[OF pr mem[unfolded eq]]
      show "bk = initial_backup info \<and> a = agentId config
            \<and> (\<exists>k ek bs iv.
                  createBackupKey en (publicKey config) = Inr (k, ek)
                \<and> startDumper en k config = Inr (bs, iv)
                \<and> 1 \<le> n
                \<and> n \<le> length (split_parts en (concat (header_writes rt (VERSION en) ek iv @ bs)))
                \<and> h = part_hash en
                        (split_parts en (concat (header_writes rt (VERSION en) ek iv @ bs))
                           ! (n - 1)))" .
    qed
    from 1 2 show "\<not> is_direct ev
        \<and> (\<forall>bk n a h. ev = GetUploadPartUrl bk n a h \<longrightarrow>
              bk = initial_backup info \<and> a = agentId config
            \<and> (\<exists>k ek bs iv.
                  createBackupKey en (publicKey config) = Inr (k, ek)
                \<and> startDumper en k config = Inr (bs, iv)
                \<and> 1 \<le> n
                \<and> n \<le> length (split_parts en (concat (header_writes rt (VERSION en) ek iv @ bs)))
                \<and> h = part_hash en
                        (split_parts en (concat (header_writes rt (VERSION en) ek iv @ bs))
                           ! (n - 1))))"
      by (intro conjI)
  qed
next
  show "subscriptionType config = free
        \<and> checkDbDumpProgram en (dbType config) (dumpProgramsDirectory config) = Inr ()
        \<and> (\<exists>k ek bs iv. createBackupKey en (publicKey config) = Inr (k, ek)
              \<and> startDumper en k config = Inr (bs, iv))
      \<longrightarrow> InitMultipartUpload (backup_filename (dbName config) (utc_now en))
            \<in> set (backupDatabase rt en config info)"
    using session_opened[of config en _ _ _ _ rt info] by blast
next
  show "backup_filename (dbName config) (utc_now en)
       = ''backup_'' @ dbName config @ ''_''
         @ padStart 2 (decimal (day (utc_now en))) @ padStart 2 (decimal (month (utc_now en)))
         @ padStart 4 (decimal (year (utc_now en)))
         @ padStart 2 (decimal (hour (utc_now en))) @ padStart 2 (decimal (minute (utc_now en)))"
    by (simp add: backup_filename_def toFormat_ddLLyyyyHHmm_def)
qed

theorem strategy_by_tier_witness:
  "subscriptionType (toy_config\<lparr>subscriptionType := free\<rparr>) = free
   \<and> GetUploadPartUrlFromLocalCredentials (Some ''backup_mydb_040720180905'') (Some ''uid'') 2 ''h''
       \<in> set (backupDatabase toy_runtime toy_env (toy_config\<lparr>subscriptionType := free\<rparr>)
                \<lparr>backup = None\<rparr>)
   \<and> \<not> is_delegated
         (GetUploadPartUrlFromLocalCredentials (Some ''backup_mydb_040720180905'') (Some ''uid'')
            2 ''h'')
   \<and> Some ''backup_mydb_040720180905''
       = Some (backup_filename (dbName (toy_config\<lparr>subscriptionType := free\<rparr>))
                 (utc_now toy_env))
   \<and> subscriptionType toy_config = premium
   \<and> GetUploadPartUrl \<lparr>filename = None, s3uploadId = None, seeded = []\<rparr> 2 ''agent'' ''h''
       \<in> set (backupDatabase toy_runtime toy_env toy_config \<lparr>backup = None\<rparr>)
   \<and> \<not> is_direct
         (GetUploadPartUrl \<lparr>filename = None, s3uploadId = None, seeded = []\<rparr> 2 ''agent'' ''h'')
   \<and> \<lparr>filename = None, s3uploadId = None, seeded = []\<rparr> = initial_backup \<lparr>backup = None\<rparr>"
proof -
  have f: "subscriptionType (toy_config\<lparr>subscriptionType := free\<rparr>) = free" by simp
  have p: "subscriptionType toy_config = premium" by (simp add: toy_config_def)
  have m1: "GetUploadPartUrlFromLocalCredentials (Some ''backup_mydb_040720180905'')
              (Some ''uid'') 2 ''h''
       \<in> set (backupDatabase toy_runtime toy_env (toy_config\<lparr>subscriptionType := free\<rparr>)
                \<lparr>backup = None\<rparr>)"
    by code_simp
  have m2: "GetUploadPartUrl \<lparr>filename = None, s3uploadId = None, seeded = []\<rparr> 2 ''agent'' ''h''
       \<in> set (backupDatabase toy_runtime toy_env toy_config \<lparr>backup = None\<rparr>)"
    by code_simp
  note t1 = strategy_by_tier[of "toy_config\<lparr>subscriptionType := free\<rparr>" toy_runtime toy_env
      "\<lparr>backup = None\<rparr>", THEN conjunct1, THEN mp, OF f, THEN bspec, OF m1]
  have c1: "\<not> is_delegated
         (GetUploadPartUrlFromLocalCredentials (Some ''backup_mydb_040720180905'') (Some ''uid'')
            2 ''h'')"
    using t1 by (rule conjunct1)
  have c2: "Some ''backup_mydb_040720180905''
       = Some (backup_filename (dbName (toy_config\<lparr>subscriptionType := free\<rparr>))
                 (utc_now toy_env))"
    using t1[THEN conjunct2, THEN conjunct2, THEN spec, THEN spec, THEN spec, THEN spec,
        THEN mp, OF refl]
    by (rule conjunct1)
  note t2 = strategy_by_tier[of toy_config toy_runtime toy_env "\<lparr>backup = None\<rparr>",
      THEN conjunct2, THEN conjunct1, THEN mp, OF p, THEN bspec, OF m2]
  have c3: "\<not> is_direct
         (GetUploadPartUrl \<lparr>filename = None, s3uploadId = None, seeded = []\<rparr> 2 ''agent'' ''h'')"
    using t2 by (rule conjunct1)
  have c4: "\<lparr>filename = None, s3uploadId = None, seeded = []\<rparr> = initial_backup \<lparr>backup = None\<rparr>"
    using t2[THEN conjunct2, THEN spec, THEN spec, THEN spec, THEN spec, THEN mp, OF refl]
    by (rule conjunct1)
  from f m1 c1 c2 p m2 c3 c4 show ?thesis by (intro conjI)
qed

text \<open>
  C5. Reading back the header the worker wrote (7 bytes of magic, the version width, the
  4-byte length in the byte order of the host, that many key bytes, the IV width) gives
  the magic, the version bytes, the key length, the wrapped key and the IV that went in,
  and leaves the payload. A buffer is shorter than \<open>2 ^ 32\<close> bytes.
\<close>

theorem header_round_trip:
  assumes "length encryptedKey < 2 ^ 32"
  shows "parse_header (host_endianness rt) (length version) (length iv)
           (concat (header_writes rt version encryptedKey iv) @ payload)
         = Some (Buffer_from_string ''DBACKED'', Buffer_from_array version,
                 length encryptedKey, encryptedKey, iv, payload)"
proof -
  have n: "read_uint32 (host_endianness rt)
             (Uint32Array_buffer (host_endianness rt) (length encryptedKey)) = length encryptedKey"
    using assms by (simp add: read_Uint32Array_buffer)
  have m: "length (Buffer_from_string ''DBACKED'') = 7" by (simp add: Buffer_from_string_def)
  have v: "length (Buffer_from_array version) = length version" by (simp add: Buffer_from_array_def)
  show ?thesis
    by (simp add: parse_header_def header_writes_def Let_def m v n length_Uint32Array_buffer)
qed

theorem header_round_trip_witness:
  "length [9, 9, 9 :: 8 word] < 2 ^ 32
   \<and> parse_header (host_endianness toy_runtime) (length [0, 0, 1 :: int]) (length [7, 7 :: 8 word])
        (concat (header_writes toy_runtime [0, 0, 1] [9, 9, 9] [7, 7]) @ [10, 11, 12])
      = Some ([0x44, 0x42, 0x41, 0x43, 0x4B, 0x45, 0x44], [0, 0, 1], 3, [9, 9, 9], [7, 7],
              [10, 11, 12])"
proof -
  have a: "length [9, 9, 9 :: 8 word] < 2 ^ 32" by simp
  show ?thesis
    using a header_round_trip[OF a, of toy_runtime "[0, 0, 1]" "[7, 7]" "[10, 11, 12]"]
    by (simp add: Buffer_from_string_def Buffer_from_array_def)
qed

text \<open>
  C6. Two runs that write the same bytes to the stream hand the same digest to
  \<^verbatim>\<open>finishUpload\<close>, whatever parts the uploader cuts the stream into and in whatever chunks
  the dump delivers it: the digest is the MD5 of the concatenation of the bytes written.
\<close>

theorem hash_independent_of_parts:
  assumes "FinishUpload b1 p1 h1 a1 k1 \<in> set (backupDatabase rt en1 config1 info1)"
    and "FinishUpload b2 p2 h2 a2 k2 \<in> set (backupDatabase rt en2 config2 info2)"
    and "concat (stream_written (backupDatabase rt en1 config1 info1))
           = concat (stream_written (backupDatabase rt en2 config2 info2))"
  shows "h1 = h2
       \<and> h1 = hex (md5 rt (concat (stream_written (backupDatabase rt en1 config1 info1))))"
  using finish_hash[OF assms(1)] finish_hash[OF assms(2)] assms(3) by simp

theorem hash_independent_of_parts_witness:
  "FinishUpload \<lparr>filename = None, s3uploadId = None, seeded = []\<rparr>
       [(1, ''etag''), (2, ''etag'')] ''16'' ''agent'' ''PK''
     \<in> set (backupDatabase toy_runtime toy_env toy_config \<lparr>backup = None\<rparr>)
   \<and> FinishUpload \<lparr>filename = None, s3uploadId = None, seeded = []\<rparr>
       [(1, ''etag'')] ''16'' ''agent'' ''PK''
     \<in> set (backupDatabase toy_runtime
               (toy_env\<lparr>startDumper := (\<lambda>k c. Inr ([[10], [11, 12]], [7, 7])),
                        split_parts := (\<lambda>bs. [bs])\<rparr>)
               toy_config \<lparr>backup = None\<rparr>)
   \<and> concat (stream_written (backupDatabase toy_runtime toy_env toy_config \<lparr>backup = None\<rparr>))
     = concat (stream_written (backupDatabase toy_runtime
               (toy_env\<lparr>startDumper := (\<lambda>k c. Inr ([[10], [11, 12]], [7, 7])),
                        split_parts := (\<lambda>bs. [bs])\<rparr>)
               toy_config \<lparr>backup = None\<rparr>))
   \<and> ''16'' = hex (md5 toy_runtime
        (concat (stream_written (backupDatabase toy_runtime toy_env toy_config \<lparr>backup = None\<rparr>))))"
proof -
  have a: "FinishUpload \<lparr>filename = None, s3uploadId = None, seeded = []\<rparr>
       [(1, ''etag''), (2, ''etag'')] ''16'' ''agent'' ''PK''
     \<in> set (backupDatabase toy_runtime toy_env toy_config \<lparr>backup = None\<rparr>)"
    by code_simp
  have b: "FinishUpload \<lparr>filename = None, s3uploadId = None, seeded = []\<rparr>
       [(1, ''etag'')] ''16'' ''agent'' ''PK''
     \<in> set (backupDatabase toy_runtime
               (toy_env\<lparr>startDumper := (\<lambda>k c. Inr ([[10], [11, 12]], [7, 7])),
                        split_parts := (\<lambda>bs. [bs])\<rparr>)
               toy_config \<lparr>backup = None\<rparr>)"
    by code_simp
  have c: "concat (stream_written (backupDatabase toy_runtime toy_env toy_config \<lparr>backup = None\<rparr>))
     = concat (stream_written (backupDatabase toy_runtime
               (toy_env\<lparr>startDumper := (\<lambda>k c. Inr ([[10], [11, 12]], [7, 7])),
                        split_parts := (\<lambda>bs. [bs])\<rparr>)
               toy_config \<lparr>backup = None\<rparr>))"
    by code_simp
  from a b c hash_independent_of_parts[OF a b c] show ?thesis by blast
qed

text \<open>
  C7. The claim is that an error raised at a step of the job becomes one message
  \<^verbatim>\<open>{ type: "error", payload }\<close> for the controller, after which the job terminates in a
  failure state. In the run below the dump program is missing and
  \<^verbatim>\<open>checkDbDumpProgram\<close> rejects with the code \<^verbatim>\<open>ENOENT\<close>: the \<^verbatim>\<open>catch\<close> block logs the
  error and sends the message, and that is all. The process is not ended: no exit code
  follows the message, where the success path ends with \<^verbatim>\<open>process.exit(0)\<close> and the
  uncaughtException handler with \<^verbatim>\<open>process.exit(1)\<close>.
\<close>

theorem caught_error_no_exit:
  "backupDatabase toy_runtime
     (toy_env\<lparr>checkDbDumpProgram :=
        (\<lambda>t d. Inl [(''code'', JStr ''ENOENT''), (''stack'', JStr ''trace'')])\<rparr>)
     toy_config \<lparr>backup = None\<rparr>
   = [CheckDbDumpProgram pg ''/tmp'',
      Log Error ''Unknown error while creating backup''
        (Some (JObj [(''error'', JStr ''ENOENT'')])),
      ProcessSend (JObj [(''type'', JStr ''error''),
                         (''payload'', JStr (''ENOENT'' @ [CHR 0x0A] @ ''trace''))])]
   \<and> exits (backupDatabase toy_runtime
        (toy_env\<lparr>checkDbDumpProgram :=
           (\<lambda>t d. Inl [(''code'', JStr ''ENOENT''), (''stack'', JStr ''trace'')])\<rparr>)
        toy_config \<lparr>backup = None\<rparr>) = []"
  by code_simp

text \<open>
  C8. A message that is not JSON text for an object whose \<^verbatim>\<open>type\<close> is
  \<^verbatim>\<open>"startBackup"\<close> (text that does not parse included) makes the handler do nothing:
  no backup is started and no event is performed, so no diagnostic and no error message.
  A backup is started exactly when the message is such an object and its payload can be
  read, and then with the payload's \<^verbatim>\<open>config\<close> and \<^verbatim>\<open>backupInfo\<close>.
\<close>

theorem ignored_message:
  "(\<not> is_start_command rt message \<longrightarrow>
      on_message rt message = NoAction \<and> message_events rt run message = [])
   \<and> (on_message rt message = StartBackup config backupInfo \<longleftrightarrow>
        (\<exists>ps payload. JSON_parse rt message = Inr (JObj ps)
           \<and> map_of ps ''type'' = Some (JStr ''startBackup'')
           \<and> member (JObj ps) ''payload'' = Inr payload
           \<and> member payload ''config'' = Inr config
           \<and> member payload ''backupInfo'' = Inr backupInfo))"
proof (intro conjI impI)
  assume n: "\<not> is_start_command rt message"
  show "on_message rt message = NoAction"
  proof (cases "JSON_parse rt message")
    case (Inl e)
    then show ?thesis by (simp add: on_message_def)
  next
    case (Inr parsed)
    with n have "member parsed ''type'' \<noteq> Inr (JStr ''startBackup'')"
      by (auto simp: is_start_command_def dest: member_type_start)
    with Inr show ?thesis
      by (auto simp: on_message_def split: sum.splits)
  qed
  then show "message_events rt run message = []"
    by (simp add: message_events_def)
next
  show "on_message rt message = StartBackup config backupInfo \<longleftrightarrow>
        (\<exists>ps payload. JSON_parse rt message = Inr (JObj ps)
           \<and> map_of ps ''type'' = Some (JStr ''startBackup'')
           \<and> member (JObj ps) ''payload'' = Inr payload
           \<and> member payload ''config'' = Inr config
           \<and> member payload ''backupInfo'' = Inr backupInfo)"
    (is "?L \<longleftrightarrow> ?R")
  proof
    assume ?L
    then obtain parsed payload where p: "JSON_parse rt message = Inr parsed"
      and t: "member parsed ''type'' = Inr (JStr ''startBackup'')"
      and pl: "member parsed ''payload'' = Inr payload"
      and c: "member payload ''config'' = Inr config"
      and b: "member payload ''backupInfo'' = Inr backupInfo"
      by (auto simp: on_message_def split: sum.splits if_splits)
    from t obtain ps where "parsed = JObj ps" "map_of ps ''type'' = Some (JStr ''startBackup'')"
      by (auto dest: member_type_start)
    with p pl c b show ?R by blast
  next
    assume ?R
    then show ?L by (auto simp: on_message_def property_def)
  qed
qed

theorem ignored_message_witness:
  "\<not> is_start_command toy_runtime (JStr ''hello'')
   \<and> on_message toy_runtime (JStr ''hello'') = NoAction
   \<and> message_events toy_runtime (\<lambda>c i. [HashEnd]) (JStr ''hello'') = []
   \<and> on_message toy_runtime (JStr ''start'') = StartBackup (JStr ''c'') (JObj [])"
proof -
  have h: "\<not> is_start_command toy_runtime (JStr ''hello'')"
    by (simp add: is_start_command_def toy_runtime_def toy_parse_def)
  have s: "\<exists>ps payload. JSON_parse toy_runtime (JStr ''start'') = Inr (JObj ps)
           \<and> map_of ps ''type'' = Some (JStr ''startBackup'')
           \<and> member (JObj ps) ''payload'' = Inr payload
           \<and> member payload ''config'' = Inr (JStr ''c'')
           \<and> member payload ''backupInfo'' = Inr (JObj [])"
    by (simp add: toy_runtime_def toy_parse_def property_def)
  show ?thesis
    using h s
      ignored_message[of toy_runtime "JStr ''hello''" "\<lambda>c i. [HashEnd]" "JStr ''c''" "JObj []"]
      ignored_message[of toy_runtime "JStr ''start''" "\<lambda>c i. [HashEnd]" "JStr ''c''" "JObj []"]
    by blast
qed

text \<open>
  C9. On a little-endian host the length field of a wrapped key of \<open>n < 2 ^ 32\<close> bytes
  is the four base-256 digits of \<open>n\<close>, least significant first.
\<close>

theorem key_length_little_endian:
  assumes "host_endianness rt = LittleEndian" and "length encryptedKey < 2 ^ 32"
  shows "map unat (header_writes rt version encryptedKey iv ! 2) =
           [length encryptedKey mod 256,
            length encryptedKey div 256 mod 256,
            length encryptedKey div 65536 mod 256,
            length encryptedKey div 16777216 mod 256]"
  using assms
  by (simp add: header_writes_def Uint32Array_buffer_def unat_uint32_le unat_word32_of_nat)

theorem key_length_little_endian_witness:
  "host_endianness toy_runtime = LittleEndian
   \<and> length (replicate 258 (0 :: 8 word)) < 2 ^ 32
   \<and> map unat (header_writes toy_runtime [0, 0, 1] (replicate 258 0) [7, 7] ! 2) = [2, 1, 0, 0]"
proof -
  have a: "host_endianness toy_runtime = LittleEndian" by (simp add: toy_runtime_def)
  have b: "length (replicate 258 (0 :: 8 word)) < 2 ^ 32" by simp
  show ?thesis
    using a b key_length_little_endian[OF a b, of "[0, 0, 1]" "[7, 7]"] by simp
qed

text \<open>
  C10. When the uncaught error is an object whose \<^verbatim>\<open>code\<close> is falsy, whose
  \<^verbatim>\<open>response\<close> is truthy and which has no \<^verbatim>\<open>responserror\<close> property, the handler
  throws a TypeError while it builds the payload (it reads \<^verbatim>\<open>data\<close> of the undefined
  \<^verbatim>\<open>error.responserror\<close>): after \<^verbatim>\<open>console.error\<close> nothing is sent and
  \<^verbatim>\<open>process.exit\<close> is not reached.
\<close>

theorem uncaught_handler_throws:
  assumes "member (JObj ps) ''code'' = Inr c" and "\<not> truthy c"
    and "member (JObj ps) ''response'' = Inr r" and "truthy r"
    and "member (JObj ps) ''responserror'' = Inr JUndefined"
  shows "on_uncaughtException rt (JObj ps) =
           [ConsoleError (JObj ps),
            Throws (TypeError ''Cannot read property data of undefined'')]"
  using assms
  by (simp add: on_uncaughtException_def uncaught_payload_def uncaught_detail_def
      or_else_def and_then_def chain_def)

theorem uncaught_handler_throws_witness:
  "member (JObj [(''response'', JObj [(''data'', JStr ''Forbidden'')]),
                 (''message'', JStr ''Request failed''), (''stack'', JStr ''trace'')])
      ''code'' = Inr JUndefined
   \<and> \<not> truthy JUndefined
   \<and> member (JObj [(''response'', JObj [(''data'', JStr ''Forbidden'')]),
                 (''message'', JStr ''Request failed''), (''stack'', JStr ''trace'')])
      ''response'' = Inr (JObj [(''data'', JStr ''Forbidden'')])
   \<and> truthy (JObj [(''data'', JStr ''Forbidden'')])
   \<and> member (JObj [(''response'', JObj [(''data'', JStr ''Forbidden'')]),
                 (''message'', JStr ''Request failed''), (''stack'', JStr ''trace'')])
      ''responserror'' = Inr JUndefined
   \<and> on_uncaughtException toy_runtime
        (JObj [(''response'', JObj [(''data'', JStr ''Forbidden'')]),
               (''message'', JStr ''Request failed''), (''stack'', JStr ''trace'')])
      = [ConsoleError
           (JObj [(''response'', JObj [(''data'', JStr ''Forbidden'')]),
                  (''message'', JStr ''Request failed''), (''stack'', JStr ''trace'')]),
         Throws (TypeError ''Cannot read property data of undefined'')]"
proof -
  let ?ps = "[(''response'', JObj [(''data'', JStr ''Forbidden'')]),
              (''message'', JStr ''Request failed''), (''stack'', JStr ''trace'')]"
  have a: "member (JObj ?ps) ''code'' = Inr JUndefined" by (simp add: property_def)
  have b: "\<not> truthy JUndefined" by simp
  have c: "member (JObj ?ps) ''response'' = Inr (JObj [(''data'', JStr ''Forbidden'')])"
    by (simp add: property_def)
  have d: "truthy (JObj [(''data'', JStr ''Forbidden'')])" by simp
  have e: "member (JObj ?ps) ''responserror'' = Inr JUndefined" by (simp add: property_def)
  show ?thesis
    using a b c d e uncaught_handler_throws[OF a b c d e, of toy_runtime] by simp
qed

end
